theory Spec2Isabelle
  imports Complex_Main
begin

unbundle bit_operations_syntax

section \<open>Strings\<close>

text \<open>
  JavaScript strings are modelled as HOL strings; \<open>of_char\<close> plays the role of
  \<open>charCodeAt\<close>. The characters are the code points 0..255 (Latin-1), on which
  \<open>toLowerCase\<close> and \<open>trim\<close> act as defined below.
\<close>

definition isWhiteSpace :: "char \<Rightarrow> bool" where
  "isWhiteSpace c = (of_char c \<in> {9, 10, 11, 12, 13, 32, 160 :: nat})"

definition trim :: "string \<Rightarrow> string" where
  "trim s = rev (dropWhile isWhiteSpace (rev (dropWhile isWhiteSpace s)))"

definition lowerChar :: "char \<Rightarrow> char" where
  "lowerChar c =
     (let n = (of_char c :: nat) in
      if (65 \<le> n \<and> n \<le> 90) \<or> (192 \<le> n \<and> n \<le> 222 \<and> n \<noteq> 215)
      then char_of (n + 32) else c)"

definition toLowerCase :: "string \<Rightarrow> string" where
  "toLowerCase s = map lowerChar s"

text \<open>\<open>normalizeEmail\<close>: \<open>email.toLowerCase().trim()\<close>.\<close>

definition normalizeEmail :: "string \<Rightarrow> string" where
  "normalizeEmail email = trim (toLowerCase email)"

definition digitChar :: "nat \<Rightarrow> char" where
  "digitChar d = char_of (48 + d)"

text \<open>\<open>Number.prototype.toString\<close> on a non-negative integer: its decimal digits.\<close>

function toString_nat :: "nat \<Rightarrow> string" where
  "toString_nat n =
     (if n < 10 then [digitChar n] else toString_nat (n div 10) @ [digitChar (n mod 10)])"
  by pat_completeness auto
termination
  by (relation "measure (\<lambda>n. n)") auto

declare toString_nat.simps [simp del]

definition toString :: "int \<Rightarrow> string" where
  "toString i = (if i < 0 then CHR ''-'' # toString_nat (nat (- i)) else toString_nat (nat i))"

text \<open>
  \<open>String.prototype.padStart(targetLength, padString)\<close>: a string already long enough
  (or an empty filler) is returned as it is; otherwise the filler is repeated and cut to
  the missing length.
\<close>

definition padStart :: "nat \<Rightarrow> string \<Rightarrow> string \<Rightarrow> string" where
  "padStart targetLength padString s =
     (if targetLength \<le> length s \<or> padString = [] then s
      else take (targetLength - length s)
             (concat (replicate (targetLength - length s) padString)) @ s)"

section \<open>Code generation\<close>

text \<open>
  \<open>generateOTP\<close>, with the value of \<open>Math.random()\<close> as the argument \<open>r\<close>
  (\<open>0 \<le> r < 1\<close>); the product is taken over the reals, where the floor ranges over
  0..899999 as it does for the doubles below 1:
  \<^verbatim>\<open>
  const otpLength = 6;
  const min = Math.pow(10, otpLength - 1);
  const max = Math.pow(10, otpLength) - 1;
  const otp = Math.floor(Math.random() * (max - min + 1)) + min;
  return otp.toString().padStart(otpLength, "000000");
  \<close>
\<close>

definition generateOTP :: "real \<Rightarrow> string" where
  "generateOTP r =
     (let otpLength = (6 :: nat);
          min = (10 :: int) ^ (otpLength - 1);
          max = (10 :: int) ^ otpLength - 1;
          otp = \<lfloor>r * of_int (max - min + 1)\<rfloor> + min
      in padStart otpLength ''000000'' (toString otp))"

text \<open>
  \<open>constantTimeCompare\<close>: the loop accumulates the XOR of the character codes
  with OR and has no exit before \<open>i = a.length\<close>.
\<close>

function constantTimeCompare_loop :: "string \<Rightarrow> string \<Rightarrow> nat \<Rightarrow> nat \<Rightarrow> nat" where
  "constantTimeCompare_loop a b i result =
     (if i < length a
      then constantTimeCompare_loop a b (i + 1) (result OR (of_char (a ! i) XOR of_char (b ! i)))
      else result)"
  by pat_completeness auto
termination
  by (relation "measure (\<lambda>(a, b, i, result). length a - i)") auto

declare constantTimeCompare_loop.simps [simp del]

definition constantTimeCompare :: "string \<Rightarrow> string \<Rightarrow> bool" where
  "constantTimeCompare a b =
     (if length a \<noteq> length b then False
      else constantTimeCompare_loop a b 0 0 = 0)"

text \<open>
  The same function with a ghost variable, to speak about what it reads: \<open>visited\<close>
  collects, in order, every index at which the loop body runs, that is at which
  \<open>a.charCodeAt(i)\<close> and \<open>b.charCodeAt(i)\<close> are read. The early \<open>return false\<close> on
  unequal lengths reads no character. \<open>visited\<close> takes no part in the result.
\<close>

function constantTimeCompare_scan ::
  "string \<Rightarrow> string \<Rightarrow> nat \<Rightarrow> nat \<Rightarrow> nat list \<Rightarrow> nat \<times> nat list" where
  "constantTimeCompare_scan a b i result visited =
     (if i < length a
      then constantTimeCompare_scan a b (i + 1)
             (result OR (of_char (a ! i) XOR of_char (b ! i))) (visited @ [i])
      else (result, visited))"
  by pat_completeness auto
termination
  by (relation "measure (\<lambda>(a, b, i, result, visited). length a - i)") auto

declare constantTimeCompare_scan.simps [simp del]

definition constantTimeCompare_traced :: "string \<Rightarrow> string \<Rightarrow> bool \<times> nat list" where
  "constantTimeCompare_traced a b =
     (if length a \<noteq> length b then (False, [])
      else (fst (constantTimeCompare_scan a b 0 0 []) = 0,
            snd (constantTimeCompare_scan a b 0 0 [])))"

section \<open>Configuration and tables\<close>

text \<open>
  \<open>config\<close> of \<open>config/otp.ts\<close>: five integers read from the environment.
  Times are integers, in milliseconds (the value of \<open>Date.getTime()\<close>).
\<close>

record config =
  OTP_EXPIRY_SECONDS :: int
  OTP_RESEND_WINDOW_MINUTES :: int
  MAX_RESEND_COUNT :: int
  MAX_OTP_REQUESTS_PER_HOUR :: int
  OTP_UNIQUENESS_WINDOW_HOURS :: int

definition defaultConfig :: config where
  "defaultConfig =
     \<lparr>OTP_EXPIRY_SECONDS = 30, OTP_RESEND_WINDOW_MINUTES = 5, MAX_RESEND_COUNT = 3,
      MAX_OTP_REQUESTS_PER_HOUR = 3, OTP_UNIQUENESS_WINDOW_HOURS = 24\<rparr>"

text \<open>
  The rows of \<open>otp_records\<close>, \<open>otp_history\<close> and \<open>otp_rate_limit\<close>
  (\<open>db/schema.ts\<close>), each table a list in insertion order. The primary key of
  \<open>otp_records\<close> is \<open>id_rec\<close> (a random uuid in the source; \<open>sendOtp\<close> below
  gives a new row the number of rows already present). The keys of the two logs are
  never read by the service and are left out. The fields of the logs carry a suffix,
  since a field name belongs to one record type.
\<close>

record OtpRecord =
  id_rec :: nat
  email :: string
  otpCode :: string
  correlationId :: string
  createdAt :: int
  expiresAt :: int
  resendCount :: int
  used :: bool
  invalidated :: bool

record OtpHistory =
  email_h :: string
  otpCode_h :: string
  correlationId_h :: string
  createdAt_h :: int

record OtpRateLimit =
  email_rl :: string
  correlationId_rl :: string
  requestedAt_rl :: int

record db =
  otpRecords :: "OtpRecord list"
  otpHistory :: "OtpHistory list"
  otpRateLimit :: "OtpRateLimit list"

definition emptyDb :: db where
  "emptyDb = \<lparr>otpRecords = [], otpHistory = [], otpRateLimit = []\<rparr>"

text \<open>
  The errors the service throws. \<open>HighDemandError\<close> is the plain \<open>Error\<close> of
  \<open>generateUniqueOtp\<close>, \<open>EmailSendError\<close> the plain \<open>Error\<close> of \<open>sendOtpEmail\<close>.
\<close>

datatype error =
    RateLimitError
  | OtpNotFoundError
  | OtpExpiredError
  | InvalidOtpError
  | MaxResendExceededError
  | HighDemandError
  | EmailSendError

section \<open>The service\<close>

text \<open>
  Every operation takes the store and the clock reading \<open>now\<close> and returns its result
  (\<open>Inl\<close> the error thrown) with the store it leaves: a write made before a throw
  stays, as no transaction surrounds the statements. One operation is evaluated at one
  instant: every \<open>Date.now()\<close> and \<open>new Date()\<close> of one call, and the
  \<open>defaultNow()\<close> of the rows it inserts, read the same \<open>now\<close>. The one exception
  is a \<open>sendOtp\<close> that hands over to \<open>resendOtp\<close>: the callee reads the clock
  again, after further queries, and decides on that reading, so \<open>sendOtp\<close> takes a
  second reading \<open>now_r\<close> for it. Operations run one after the other; failures of the
  storage layer are outside the model.
\<close>

definition checkRateLimit :: "config \<Rightarrow> db \<Rightarrow> string \<Rightarrow> int \<Rightarrow> error + unit" where
  "checkRateLimit cfg s email' now =
     (let oneHourAgo = now - 60 * 60 * 1000;
          requestCount = int (length (filter
            (\<lambda>e. email_rl e = email' \<and> oneHourAgo \<le> requestedAt_rl e) (otpRateLimit s)))
      in if MAX_OTP_REQUESTS_PER_HOUR cfg \<le> requestCount then Inl RateLimitError else Inr ())"

definition getUsedOtpsInWindow :: "db \<Rightarrow> string \<Rightarrow> int \<Rightarrow> int \<Rightarrow> string set" where
  "getUsedOtpsInWindow s email' windowHours now =
     (let windowStart = now - windowHours * 60 * 60 * 1000
      in set (map otpCode_h (filter
            (\<lambda>h. email_h h = email' \<and> windowStart \<le> createdAt_h h) (otpHistory s))))"

text \<open>
  The loop of \<open>generateUniqueOtp\<close>; \<open>rnd i\<close> is the value of \<open>Math.random()\<close> in
  iteration \<open>i\<close>.
\<close>

function generateUniqueOtp_loop :: "string set \<Rightarrow> (nat \<Rightarrow> real) \<Rightarrow> nat \<Rightarrow> error + string" where
  "generateUniqueOtp_loop usedOtps rnd i =
     (if i < 100
      then (let otp = generateOTP (rnd i)
            in if otp \<notin> usedOtps then Inr otp else generateUniqueOtp_loop usedOtps rnd (i + 1))
      else Inl HighDemandError)"
  by pat_completeness auto
termination
  by (relation "measure (\<lambda>(usedOtps, rnd, i). 100 - i)") auto

declare generateUniqueOtp_loop.simps [simp del]

definition generateUniqueOtp :: "config \<Rightarrow> db \<Rightarrow> string \<Rightarrow> int \<Rightarrow> (nat \<Rightarrow> real) \<Rightarrow> error + string" where
  "generateUniqueOtp cfg s email' now rnd =
     (let usedOtps = getUsedOtpsInWindow s email' (OTP_UNIQUENESS_WINDOW_HOURS cfg) now
      in generateUniqueOtp_loop usedOtps rnd 0)"

definition isActive :: "string \<Rightarrow> OtpRecord \<Rightarrow> bool" where
  "isActive email' r = (email r = email' \<and> used r = False \<and> invalidated r = False)"

text \<open>
  \<open>ORDER BY created_at DESC LIMIT 1\<close>: a row with the greatest \<open>createdAt\<close>. SQL leaves
  the choice among equal timestamps open; here the row inserted first is taken.
\<close>

fun latest :: "OtpRecord list \<Rightarrow> OtpRecord option" where
  "latest [] = None"
| "latest (x # xs) =
     (case latest xs of
        None \<Rightarrow> Some x
      | Some y \<Rightarrow> if createdAt x < createdAt y then Some y else Some x)"

definition getLatestActiveOtp :: "db \<Rightarrow> string \<Rightarrow> OtpRecord option" where
  "getLatestActiveOtp s email' = latest (filter (isActive email') (otpRecords s))"

definition canResendExistingOtp :: "config \<Rightarrow> OtpRecord \<Rightarrow> int \<Rightarrow> bool" where
  "canResendExistingOtp cfg otp now =
     (let resendWindowEnd = createdAt otp + OTP_RESEND_WINDOW_MINUTES cfg * 60 * 1000
      in now < resendWindowEnd)"

definition invalidateOldOtps :: "db \<Rightarrow> string \<Rightarrow> db" where
  "invalidateOldOtps s email' =
     s\<lparr>otpRecords := map (\<lambda>r. if isActive email' r then r\<lparr>invalidated := True\<rparr> else r)
                        (otpRecords s)\<rparr>"

text \<open>
  \<open>sendOtpEmail\<close> belongs to the mail collaborator: it returns, or throws when the
  provider reports an error. \<open>delivered\<close> is that outcome.
\<close>

definition sendOtpEmail :: "bool \<Rightarrow> error + unit" where
  "sendOtpEmail delivered = (if delivered then Inr () else Inl EmailSendError)"

definition resendOtp :: "config \<Rightarrow> db \<Rightarrow> string \<Rightarrow> int \<Rightarrow> bool \<Rightarrow> (error + string) \<times> db" where
  "resendOtp cfg s email' now delivered =
     (let normalizedEmail = normalizeEmail email' in
      case getLatestActiveOtp s normalizedEmail of
        None \<Rightarrow> (Inl OtpNotFoundError, s)
      | Some otpRecord \<Rightarrow>
          if \<not> canResendExistingOtp cfg otpRecord now then (Inl OtpExpiredError, s)
          else if MAX_RESEND_COUNT cfg \<le> resendCount otpRecord then (Inl MaxResendExceededError, s)
          else
            (let newExpiresAt = now + OTP_EXPIRY_SECONDS cfg * 1000;
                 s' = s\<lparr>otpRecords := map
                        (\<lambda>r. if id_rec r = id_rec otpRecord
                             then r\<lparr>resendCount := resendCount otpRecord + 1,
                                    expiresAt := newExpiresAt\<rparr>
                             else r) (otpRecords s)\<rparr>
             in case sendOtpEmail delivered of
                  Inl e \<Rightarrow> (Inl e, s')
                | Inr _ \<Rightarrow> (Inr (otpCode otpRecord), s')))"

definition sendOtp ::
  "config \<Rightarrow> db \<Rightarrow> string \<Rightarrow> string \<Rightarrow> int \<Rightarrow> int \<Rightarrow> (nat \<Rightarrow> real) \<Rightarrow> bool
     \<Rightarrow> (error + string) \<times> db" where
  "sendOtp cfg s email' correlationId' now now_r rnd delivered =
     (let normalizedEmail = normalizeEmail email' in
      case checkRateLimit cfg s normalizedEmail now of
        Inl e \<Rightarrow> (Inl e, s)
      | Inr _ \<Rightarrow>
          (let s1 = s\<lparr>otpRateLimit := otpRateLimit s @
                      [\<lparr>email_rl = normalizedEmail, correlationId_rl = correlationId',
                        requestedAt_rl = now\<rparr>]\<rparr>;
               existingOtp = getLatestActiveOtp s1 normalizedEmail
           in if (case existingOtp of
                    None \<Rightarrow> False
                  | Some otp \<Rightarrow> canResendExistingOtp cfg otp now)
              then resendOtp cfg s1 normalizedEmail now_r delivered
              else
                (case generateUniqueOtp cfg s1 normalizedEmail now rnd of
                   Inl e \<Rightarrow> (Inl e, s1)
                 | Inr otp \<Rightarrow>
                     (let s2 = invalidateOldOtps s1 normalizedEmail;
                          expiresAt' = now + OTP_EXPIRY_SECONDS cfg * 1000;
                          s3 = s2\<lparr>otpRecords := otpRecords s2 @
                                 [\<lparr>id_rec = length (otpRecords s2), email = normalizedEmail,
                                   otpCode = otp, correlationId = correlationId',
                                   createdAt = now, expiresAt = expiresAt', resendCount = 0,
                                   used = False, invalidated = False\<rparr>]\<rparr>;
                          s4 = s3\<lparr>otpHistory := otpHistory s3 @
                                 [\<lparr>email_h = normalizedEmail, otpCode_h = otp,
                                   correlationId_h = correlationId', createdAt_h = now\<rparr>]\<rparr>
                      in case sendOtpEmail delivered of
                           Inl e \<Rightarrow> (Inl e, s4)
                         | Inr _ \<Rightarrow> (Inr otp, s4)))))"

definition verifyOtp :: "db \<Rightarrow> string \<Rightarrow> string \<Rightarrow> int \<Rightarrow> (error + bool) \<times> db" where
  "verifyOtp s email' otp now =
     (let normalizedEmail = normalizeEmail email';
          normalizedOtp = trim otp
      in case getLatestActiveOtp s normalizedEmail of
           None \<Rightarrow> (Inl OtpNotFoundError, s)
         | Some otpRecord \<Rightarrow>
             if expiresAt otpRecord < now then (Inl OtpExpiredError, s)
             else if \<not> constantTimeCompare normalizedOtp (otpCode otpRecord)
               then (Inl InvalidOtpError, s)
             else (Inr True,
                   s\<lparr>otpRecords := map (\<lambda>r. if id_rec r = id_rec otpRecord
                                            then r\<lparr>used := True\<rparr> else r) (otpRecords s)\<rparr>))"

section \<open>Sequential executions\<close>

text \<open>
  A call with what it receives from outside: \<open>Send email correlationId now now_r rnd
  delivered\<close>, \<open>Resend email now delivered\<close> and \<open>Verify email otp now\<close>. A run
  executes the calls of a list one after the other, starting from the empty store.
\<close>

datatype op =
    Send string string int int "nat \<Rightarrow> real" bool
  | Resend string int bool
  | Verify string string int

fun step :: "config \<Rightarrow> db \<Rightarrow> op \<Rightarrow> db" where
  "step cfg s (Send e c now now_r rnd d) = snd (sendOtp cfg s e c now now_r rnd d)"
| "step cfg s (Resend e now d) = snd (resendOtp cfg s e now d)"
| "step cfg s (Verify e code now) = snd (verifyOtp s e code now)"

definition run :: "config \<Rightarrow> op list \<Rightarrow> db" where
  "run cfg ops = foldl (step cfg) emptyDb ops"

text \<open>Whether an operation is a send.\<close>

fun isSend :: "op \<Rightarrow> bool" where
  "isSend (Send e c now now_r rnd d) = True"
| "isSend (Resend e now d) = False"
| "isSend (Verify e code now) = False"

section \<open>Notions used in the properties\<close>

definition isDigit :: "char \<Rightarrow> bool" where
  "isDigit c = (48 \<le> (of_char c :: nat) \<and> (of_char c :: nat) \<le> 57)"

text \<open>The number of active rows (not used, not invalidated) of an identity.\<close>

definition activeCount :: "db \<Rightarrow> string \<Rightarrow> nat" where
  "activeCount s ident = length (filter (isActive ident) (otpRecords s))"

text \<open>The number of rate-limit entries of an identity stamped within the last hour.\<close>

definition requestsInLastHour :: "db \<Rightarrow> string \<Rightarrow> int \<Rightarrow> int" where
  "requestsInLastHour s ident now =
     int (length (filter (\<lambda>e. email_rl e = ident \<and> now - 3600000 \<le> requestedAt_rl e)
                    (otpRateLimit s)))"

text \<open>The row written by \<open>resendOtp\<close> over the row \<open>r\<close> it found.\<close>

definition resent :: "config \<Rightarrow> OtpRecord \<Rightarrow> int \<Rightarrow> OtpRecord \<Rightarrow> OtpRecord" where
  "resent cfg r now x =
     (if id_rec x = id_rec r
      then x\<lparr>resendCount := resendCount r + 1, expiresAt := now + OTP_EXPIRY_SECONDS cfg * 1000\<rparr>
      else x)"

text \<open>The row written by \<open>verifyOtp\<close> over the row \<open>r\<close> it found.\<close>

definition consumed :: "OtpRecord \<Rightarrow> OtpRecord \<Rightarrow> OtpRecord" where
  "consumed r x = (if id_rec x = id_rec r then x\<lparr>used := True\<rparr> else x)"

text \<open>A store with one active row: what a first \<open>sendOtp\<close> at time 0 leaves.\<close>

definition sampleRecord :: OtpRecord where
  "sampleRecord =
     \<lparr>id_rec = 0, email = ''a@x'', otpCode = ''100000'', correlationId = ''c'',
      createdAt = 0, expiresAt = 30000, resendCount = 0, used = False, invalidated = False\<rparr>"

definition sampleDb :: db where
  "sampleDb =
     \<lparr>otpRecords = [sampleRecord],
      otpHistory = [\<lparr>email_h = ''a@x'', otpCode_h = ''100000'', correlationId_h = ''c'',
                     createdAt_h = 0\<rparr>],
      otpRateLimit = [\<lparr>email_rl = ''a@x'', correlationId_rl = ''c'', requestedAt_rl = 0\<rparr>]\<rparr>"

text \<open>A source of draws that always gives the same value.\<close>

definition constDraw :: "real \<Rightarrow> nat \<Rightarrow> real" where
  "constDraw r i = r"

text \<open>The store after the rate-limit entry that \<open>sendOtp\<close> inserts.\<close>

definition logged :: "db \<Rightarrow> string \<Rightarrow> string \<Rightarrow> int \<Rightarrow> db" where
  "logged s ident c now =
     s\<lparr>otpRateLimit := otpRateLimit s @
          [\<lparr>email_rl = ident, correlationId_rl = c, requestedAt_rl = now\<rparr>]\<rparr>"

text \<open>
  The store after the new-code path of \<open>sendOtp\<close>: the active rows of the identity
  invalidated, the new row and its history entry appended.
\<close>

definition issued :: "config \<Rightarrow> db \<Rightarrow> string \<Rightarrow> string \<Rightarrow> int \<Rightarrow> string \<Rightarrow> db" where
  "issued cfg s ident c now otp =
     s\<lparr>otpRecords := map (\<lambda>r. if isActive ident r then r\<lparr>invalidated := True\<rparr> else r)
                        (otpRecords s) @
          [\<lparr>id_rec = length (otpRecords s), email = ident, otpCode = otp, correlationId = c,
            createdAt = now, expiresAt = now + OTP_EXPIRY_SECONDS cfg * 1000, resendCount = 0,
            used = False, invalidated = False\<rparr>],
       otpHistory := otpHistory s @
          [\<lparr>email_h = ident, otpCode_h = otp, correlationId_h = c, createdAt_h = now\<rparr>]\<rparr>"

text \<open>The sample store after three resends, at 1000, 2000 and 3000.\<close>

definition resendExhaustedDb :: db where
  "resendExhaustedDb =
     sampleDb\<lparr>otpRecords := [sampleRecord\<lparr>resendCount := 3, expiresAt := 33000\<rparr>]\<rparr>"

text \<open>The sample store after two more sends, at 1000 and 2000.\<close>

definition rateLimitedDb :: db where
  "rateLimitedDb =
     \<lparr>otpRecords = [sampleRecord\<lparr>resendCount := 2, expiresAt := 32000\<rparr>],
      otpHistory = otpHistory sampleDb,
      otpRateLimit =
        [\<lparr>email_rl = ''a@x'', correlationId_rl = ''c'', requestedAt_rl = 0\<rparr>,
         \<lparr>email_rl = ''a@x'', correlationId_rl = ''c'', requestedAt_rl = 1000\<rparr>,
         \<lparr>email_rl = ''a@x'', correlationId_rl = ''c'', requestedAt_rl = 2000\<rparr>]\<rparr>"

text \<open>Every stored code is left as it is by \<open>trim\<close>.\<close>

definition codesTrimmed :: "db \<Rightarrow> bool" where
  "codesTrimmed s = list_all (\<lambda>r. trim (otpCode r) = otpCode r) (otpRecords s)"

text \<open>Every row has a history entry with its identity, code and creation time.\<close>

definition historyCovers :: "db \<Rightarrow> bool" where
  "historyCovers s =
     list_all (\<lambda>r. list_ex (\<lambda>h. email_h h = email r \<and> otpCode_h h = otpCode r \<and>
                                 createdAt_h h = createdAt r) (otpHistory s))
       (otpRecords s)"

text \<open>A source of draws whose first value differs from the later ones.\<close>

definition retryDraw :: "nat \<Rightarrow> real" where
  "retryDraw i = (if i = 0 then 0 else 1 / 2)"

section \<open>Digits and the generator\<close>

lemma of_char_digitChar: "d < 10 \<Longrightarrow> (of_char (digitChar d) :: nat) = 48 + d"
  by (simp add: digitChar_def)

lemma digitChar_isDigit: "d < 10 \<Longrightarrow> isDigit (digitChar d)"
  by (simp add: isDigit_def of_char_digitChar)

lemma digitChar_neq_zero: "0 < d \<Longrightarrow> d < 10 \<Longrightarrow> digitChar d \<noteq> CHR ''0''"
proof
  assume d: "0 < d" "d < 10" and e: "digitChar d = CHR ''0''"
  have "(of_char (digitChar d) :: nat) = of_char CHR ''0''" by (simp only: e)
  then have "48 + d = (48 :: nat)" by (simp only: of_char_digitChar[OF d(2)]) simp
  with d show False by simp
qed

lemma digitChar_eval:
  "digitChar 0 = CHR ''0''" "digitChar 1 = CHR ''1''" "digitChar 2 = CHR ''2''"
  "digitChar 3 = CHR ''3''" "digitChar 4 = CHR ''4''" "digitChar 5 = CHR ''5''"
  "digitChar 6 = CHR ''6''" "digitChar 7 = CHR ''7''" "digitChar 8 = CHR ''8''"
  "digitChar 9 = CHR ''9''" "digitChar (Suc 0) = CHR ''1''"
  by code_simp+

lemma toString_nat_numeral:
  "toString_nat (numeral k) =
     (if (numeral k :: nat) < 10 then [digitChar (numeral k)]
      else toString_nat (numeral k div 10) @ [digitChar (numeral k mod 10)])"
  by (rule toString_nat.simps)

lemma toString_nat_0: "toString_nat 0 = ''0''"
  by (subst toString_nat.simps) (simp add: digitChar_eval)

lemma toString_nat_1: "toString_nat 1 = ''1''"
  by (subst toString_nat.simps) (simp add: digitChar_eval)

lemma toString_nat_Suc0: "toString_nat (Suc 0) = ''1''"
  by (subst toString_nat.simps) (simp add: digitChar_eval)

lemmas toString_nat_eval =
  toString_nat_numeral toString_nat_0 toString_nat_1 toString_nat_Suc0 digitChar_eval

lemmas generateOTP_eval = generateOTP_def toString_def padStart_def toString_nat_eval

lemma toString_nat_digits: "\<forall>c \<in> set (toString_nat n). isDigit c"
proof (induction n rule: toString_nat.induct)
  case (1 n)
  show ?case
  proof (cases "n < 10")
    case True
    then show ?thesis by (subst toString_nat.simps) (simp add: digitChar_isDigit)
  next
    case False
    with 1 show ?thesis by (subst toString_nat.simps) (simp add: digitChar_isDigit)
  qed
qed

lemma toString_nat_length:
  "10 ^ k \<le> n \<Longrightarrow> n < 10 ^ Suc k \<Longrightarrow> length (toString_nat n) = Suc k"
proof (induction k arbitrary: n)
  case 0
  then show ?case by (subst toString_nat.simps) simp
next
  case (Suc k)
  have "(10 :: nat) ^ 1 \<le> 10 ^ Suc k" by (rule power_increasing) simp_all
  then have "(10 :: nat) \<le> 10 ^ Suc k" by (simp only: power_one_right)
  then have ge: "10 \<le> n" using Suc.prems(1) by (rule le_trans)
  have lo: "10 ^ k \<le> n div 10"
    using Suc.prems(1) by (simp add: less_eq_div_iff_mult_less_eq mult.commute)
  have hi: "n div 10 < 10 ^ Suc k"
    using Suc.prems(2) by (simp add: div_less_iff_less_mult mult.commute)
  from Suc.IH[OF lo hi] ge show ?case by (subst toString_nat.simps) simp
qed

lemma toString_nat_nonempty: "toString_nat n \<noteq> []"
  by (subst toString_nat.simps) simp

lemma toString_nat_hd: "0 < n \<Longrightarrow> hd (toString_nat n) \<noteq> CHR ''0''"
proof (induction n rule: toString_nat.induct)
  case (1 n)
  show ?case
  proof (cases "n < 10")
    case True
    have "digitChar n \<noteq> CHR ''0''" using 1(2) True by (rule digitChar_neq_zero)
    with True show ?thesis
      by (subst toString_nat.simps) simp
  next
    case False
    then have "0 < n div 10" by (simp add: div_greater_zero_iff)
    with 1(1) False have "hd (toString_nat (n div 10)) \<noteq> CHR ''0''" by simp
    with False show ?thesis
      by (subst toString_nat.simps) (simp add: toString_nat_nonempty)
  qed
qed

text \<open>
  For a draw in \<open>[0, 1)\<close> the number is between 100000 and 999999, so \<open>padStart\<close>
  has nothing to pad.
\<close>

lemma generateOTP_eq:
  assumes "0 \<le> r" "r < 1"
  shows "generateOTP r = toString_nat (nat (\<lfloor>r * 900000\<rfloor> + 100000)) \<and>
         100000 \<le> nat (\<lfloor>r * 900000\<rfloor> + 100000) \<and>
         nat (\<lfloor>r * 900000\<rfloor> + 100000) < 1000000"
proof -
  let ?k = "\<lfloor>r * 900000\<rfloor>"
  have k0: "0 \<le> ?k" using assms(1) by simp
  have "r * 900000 < 900000" using assms(2) by simp
  then have k1: "?k < 900000" by (simp add: floor_less_iff)
  let ?n = "nat (?k + 100000)"
  have lo': "100000 \<le> ?n" using k0 by linarith
  have hi': "?n < 1000000" using k0 k1 by linarith
  have lo: "10 ^ 5 \<le> ?n" using lo' by simp
  have hi: "?n < 10 ^ Suc 5" using hi' by simp
  have len: "length (toString_nat ?n) = 6" using toString_nat_length[OF lo hi] by simp
  have "generateOTP r = padStart 6 ''000000'' (toString_nat ?n)"
  proof -
    have "\<not> ?k + 100000 < 0" using k0 by linarith
    then show ?thesis by (simp add: generateOTP_def toString_def Let_def)
  qed
  with len have "generateOTP r = toString_nat ?n" by (simp add: padStart_def)
  with lo' hi' show ?thesis by simp
qed

text \<open>
  C2. Every code the generator produces from a draw \<open>0 \<le> r < 1\<close> has six characters,
  all of them decimal digits; but its first character is never \<open>0\<close>: the generator
  draws from 100000..999999, not from 000000..999999, and no draw gives a code with a
  leading zero.
\<close>

theorem generateOTP_never_leading_zero:
  "0 \<le> r \<Longrightarrow> r < 1 \<Longrightarrow>
     length (generateOTP r) = 6 \<and> (\<forall>c \<in> set (generateOTP r). isDigit c) \<and>
     hd (generateOTP r) \<noteq> CHR ''0''"
proof -
  assume a: "0 \<le> r" "r < 1"
  let ?n = "nat (\<lfloor>r * 900000\<rfloor> + 100000)"
  from generateOTP_eq[OF a] have e: "generateOTP r = toString_nat ?n"
    and lo: "100000 \<le> ?n" and hi: "?n < 1000000" by auto
  have "10 ^ 5 \<le> ?n" "?n < 10 ^ Suc 5" using lo hi by simp_all
  then have "length (toString_nat ?n) = 6" using toString_nat_length[of 5 ?n] by simp
  moreover have "hd (toString_nat ?n) \<noteq> CHR ''0''" using lo by (intro toString_nat_hd) simp
  ultimately show ?thesis using e toString_nat_digits[of ?n] by simp
qed

theorem generateOTP_never_leading_zero_witness:
  "(0::real) \<le> 0 \<and> (0::real) < 1 \<and> generateOTP 0 = ''100000'' \<and>
   length (generateOTP 0) = 6 \<and> list_all isDigit (generateOTP 0) \<and>
   hd (generateOTP 0) \<noteq> CHR ''0''"
proof -
  have "length (generateOTP 0) = 6 \<and> (\<forall>c \<in> set (generateOTP 0). isDigit c) \<and>
     hd (generateOTP 0) \<noteq> CHR ''0''"
    by (rule generateOTP_never_leading_zero) simp_all
  moreover have "generateOTP 0 = ''100000''" by (simp add: generateOTP_eval)
  ultimately show ?thesis by (simp only: list_all_iff) simp
qed

section \<open>Strings: comparison and normalisation\<close>

lemma xor_nat_eq_0_iff: "(a XOR b = 0) = (a = (b::nat))"
  by (metis xor.right_neutral xor_self_eq xor.left_commute xor.commute)

lemma constantTimeCompare_loop_zero:
  "length a = length b \<Longrightarrow> i \<le> length a \<Longrightarrow>
   (constantTimeCompare_loop a b i result = 0) = (result = 0 \<and> drop i a = drop i b)"
proof (induction a b i result rule: constantTimeCompare_loop.induct)
  case (1 a b i result)
  show ?case
  proof (cases "i < length a")
    case True
    then have ib: "i < length b" using 1(2) by simp
    have da: "drop i a = a ! i # drop (Suc i) a" using True by (simp add: Cons_nth_drop_Suc)
    have db: "drop i b = b ! i # drop (Suc i) b" using ib by (simp add: Cons_nth_drop_Suc)
    have "(constantTimeCompare_loop a b (i + 1) (result OR (of_char (a ! i) XOR of_char (b ! i))) = 0) =
       ((result OR (of_char (a ! i) XOR of_char (b ! i))) = 0 \<and> drop (i + 1) a = drop (i + 1) b)"
      using 1(1)[OF True 1(2)] True by simp
    then show ?thesis using True da db
      by (subst constantTimeCompare_loop.simps) (auto simp: or_eq_0_iff xor_nat_eq_0_iff)
  next
    case False
    then show ?thesis using 1(2,3) by (subst constantTimeCompare_loop.simps) simp
  qed
qed

lemma constantTimeCompare_iff: "constantTimeCompare a b = (a = b)"
  using constantTimeCompare_loop_zero[of a b 0 0] by (auto simp: constantTimeCompare_def)

text \<open>The loop visits every index from \<open>i\<close> to the end.\<close>

lemma constantTimeCompare_loop_fold:
  "constantTimeCompare_loop a b i result =
     foldl (\<lambda>acc j. acc OR (of_char (a ! j) XOR of_char (b ! j))) result [i..<length a]"
proof (induction a b i result rule: constantTimeCompare_loop.induct)
  case (1 a b i result)
  show ?case
  proof (cases "i < length a")
    case True
    with 1 show ?thesis
      by (subst constantTimeCompare_loop.simps) (simp add: upt_conv_Cons)
  next
    case False
    then show ?thesis by (subst constantTimeCompare_loop.simps) simp
  qed
qed

lemma constantTimeCompare_scan_fst:
  "fst (constantTimeCompare_scan a b i result visited) = constantTimeCompare_loop a b i result"
proof (induction a b i result visited rule: constantTimeCompare_scan.induct)
  case (1 a b i result visited)
  show ?case
  proof (cases "i < length a")
    case True
    with 1 show ?thesis
      by (subst constantTimeCompare_scan.simps, subst constantTimeCompare_loop.simps) simp
  next
    case False
    then show ?thesis
      by (subst constantTimeCompare_scan.simps, subst constantTimeCompare_loop.simps) simp
  qed
qed

lemma constantTimeCompare_scan_snd:
  "i \<le> length a \<Longrightarrow>
   snd (constantTimeCompare_scan a b i result visited) = visited @ [i..<length a]"
proof (induction a b i result visited rule: constantTimeCompare_scan.induct)
  case (1 a b i result visited)
  show ?case
  proof (cases "i < length a")
    case True
    with 1 show ?thesis
      by (subst constantTimeCompare_scan.simps) (simp add: upt_conv_Cons)
  next
    case False
    with 1(2) show ?thesis
      by (subst constantTimeCompare_scan.simps) simp
  qed
qed

lemma constantTimeCompare_traced_fst:
  "fst (constantTimeCompare_traced a b) = constantTimeCompare a b"
  by (simp add: constantTimeCompare_traced_def constantTimeCompare_def
      constantTimeCompare_scan_fst)

lemma constantTimeCompare_traced_snd:
  "snd (constantTimeCompare_traced a b) = (if length a = length b then [0..<length a] else [])"
  by (simp add: constantTimeCompare_traced_def constantTimeCompare_scan_snd)

lemma trim_fixed: "s = [] \<or> (\<not> isWhiteSpace (hd s) \<and> \<not> isWhiteSpace (last s)) \<Longrightarrow> trim s = s"
proof (cases "s = []")
  case True
  then show ?thesis by (simp add: trim_def)
next
  case False
  assume "s = [] \<or> (\<not> isWhiteSpace (hd s) \<and> \<not> isWhiteSpace (last s))"
  with False have h: "\<not> isWhiteSpace (hd s)" and l: "\<not> isWhiteSpace (last s)" by auto
  have 1: "dropWhile isWhiteSpace s = s" using h by (simp add: dropWhile_eq_self_iff)
  have "hd (rev s) = last s" using False by (simp add: hd_rev)
  then have 2: "dropWhile isWhiteSpace (rev s) = rev s" using l by (simp add: dropWhile_eq_self_iff)
  show ?thesis by (simp add: trim_def 1 2)
qed

lemma trim_shape: "trim s = [] \<or> (\<not> isWhiteSpace (hd (trim s)) \<and> \<not> isWhiteSpace (last (trim s)))"
proof (cases "trim s = []")
  case True
  then show ?thesis by simp
next
  case False
  let ?u = "dropWhile isWhiteSpace s"
  let ?v = "dropWhile isWhiteSpace (rev ?u)"
  have t: "trim s = rev ?v" by (simp add: trim_def)
  with False have v: "?v \<noteq> []" by simp
  have u: "?u \<noteq> []"
  proof
    assume "?u = []"
    then have "?v = []" by (simp only: rev.simps dropWhile.simps)
    with v show False by simp
  qed
  have hv: "\<not> isWhiteSpace (hd ?v)" using v by (rule hd_dropWhile)
  have hu: "\<not> isWhiteSpace (hd ?u)" using u by (rule hd_dropWhile)
  have "last (trim s) = hd ?v" using v t by (simp add: last_rev)
  with hv have l: "\<not> isWhiteSpace (last (trim s))" by simp
  have "hd ?u \<in> set (rev ?u)" using u by simp
  then have "last ?v = last (rev ?u)" using hu by (rule dropWhile_last)
  also have "\<dots> = hd ?u" using u by (simp add: last_rev)
  finally have "hd (trim s) = hd ?u" using v t by (simp add: hd_rev)
  with hu l show ?thesis by simp
qed

lemma trim_idem: "trim (trim s) = trim s"
  by (rule trim_fixed) (rule trim_shape)

lemma lowerChar_idem: "lowerChar (lowerChar c) = lowerChar c"
proof -
  let ?n = "of_char c :: nat"
  have lt: "?n < 256" by simp
  show ?thesis
  proof (cases "(65 \<le> ?n \<and> ?n \<le> 90) \<or> (192 \<le> ?n \<and> ?n \<le> 222 \<and> ?n \<noteq> 215)")
    case True
    then have "(of_char (char_of (?n + 32)) :: nat) = ?n + 32" by auto
    with True show ?thesis by (auto simp add: lowerChar_def Let_def)
  next
    case False
    have "lowerChar c = c" unfolding lowerChar_def Let_def using False by (rule if_not_P)
    then show ?thesis by simp
  qed
qed

lemma lowerChar_white: "isWhiteSpace (lowerChar c) = isWhiteSpace c"
proof -
  let ?n = "of_char c :: nat"
  show ?thesis
  proof (cases "(65 \<le> ?n \<and> ?n \<le> 90) \<or> (192 \<le> ?n \<and> ?n \<le> 222 \<and> ?n \<noteq> 215)")
    case True
    then have "(of_char (char_of (?n + 32)) :: nat) = ?n + 32" by auto
    with True show ?thesis by (auto simp add: lowerChar_def Let_def isWhiteSpace_def)
  next
    case False
    have "lowerChar c = c" unfolding lowerChar_def Let_def using False by (rule if_not_P)
    then show ?thesis by simp
  qed
qed

lemma toLowerCase_dropWhile:
  "toLowerCase (dropWhile isWhiteSpace s) = dropWhile isWhiteSpace (toLowerCase s)"
  by (induction s) (simp_all add: toLowerCase_def lowerChar_white)

lemma toLowerCase_trim: "toLowerCase (trim s) = trim (toLowerCase s)"
proof -
  have r: "\<And>x. toLowerCase (rev x) = rev (toLowerCase x)" by (simp add: toLowerCase_def rev_map)
  show ?thesis by (simp add: trim_def r toLowerCase_dropWhile)
qed

lemma toLowerCase_idem: "toLowerCase (toLowerCase s) = toLowerCase s"
  by (simp add: toLowerCase_def lowerChar_idem)

lemma normalizeEmail_idem: "normalizeEmail (normalizeEmail e) = normalizeEmail e"
  by (simp add: normalizeEmail_def toLowerCase_trim toLowerCase_idem trim_idem)

section \<open>Lookup of the active row\<close>

lemma latest_None_iff: "(latest xs = None) = (xs = [])"
  by (cases xs) (auto split: option.splits)

lemma latest_mem: "latest xs = Some r \<Longrightarrow> r \<in> set xs"
  by (induction xs arbitrary: r) (auto split: option.splits if_splits)

lemma latest_single: "latest [x] = Some x"
  by simp

lemma getLatestActiveOtp_Some:
  "getLatestActiveOtp s e = Some r \<Longrightarrow> r \<in> set (otpRecords s) \<and> isActive e r"
  using latest_mem[of "filter (isActive e) (otpRecords s)" r]
  by (simp add: getLatestActiveOtp_def)

lemma getLatestActiveOtp_None:
  "(getLatestActiveOtp s e = None) = (activeCount s e = 0)"
  by (simp add: getLatestActiveOtp_def latest_None_iff activeCount_def)

lemma normalizeEmail_sample: "normalizeEmail ''a@x'' = ''a@x''"
  by code_simp

lemma trim_sample: "trim ''100000'' = ''100000''" "trim '' 100000'' = ''100000''"
  by code_simp+

lemma getLatestActiveOtp_sample: "getLatestActiveOtp sampleDb ''a@x'' = Some sampleRecord"
  by (simp add: getLatestActiveOtp_def sampleDb_def sampleRecord_def isActive_def)

section \<open>verifyOtp\<close>

lemma verifyOtp_None:
  "getLatestActiveOtp s (normalizeEmail e) = None \<Longrightarrow>
   verifyOtp s e otp now = (Inl OtpNotFoundError, s)"
  by (simp add: verifyOtp_def)

lemma verifyOtp_Some:
  "getLatestActiveOtp s (normalizeEmail e) = Some r \<Longrightarrow>
   verifyOtp s e otp now =
     (if expiresAt r < now then (Inl OtpExpiredError, s)
      else if trim otp \<noteq> otpCode r then (Inl InvalidOtpError, s)
      else (Inr True, s\<lparr>otpRecords := map (consumed r) (otpRecords s)\<rparr>))"
  by (simp add: verifyOtp_def constantTimeCompare_iff consumed_def[abs_def])

text \<open>
  C10. \<open>verifyOtp\<close> never returns \<open>false\<close>: its result is one of the errors
  \<open>OtpNotFoundError\<close>, \<open>OtpExpiredError\<close>, \<open>InvalidOtpError\<close>, or it is \<open>true\<close>
  and the store then holds the active row that was found with \<open>used\<close> set.
\<close>

theorem verifyOtp_never_false:
  "fst (verifyOtp s e otp now) \<noteq> Inr False \<and>
   (fst (verifyOtp s e otp now) = Inl OtpNotFoundError \<or>
    fst (verifyOtp s e otp now) = Inl OtpExpiredError \<or>
    fst (verifyOtp s e otp now) = Inl InvalidOtpError \<or>
    (fst (verifyOtp s e otp now) = Inr True \<and>
     (\<exists>r. getLatestActiveOtp s (normalizeEmail e) = Some r \<and> r \<in> set (otpRecords s) \<and>
          snd (verifyOtp s e otp now) = s\<lparr>otpRecords := map (consumed r) (otpRecords s)\<rparr> \<and>
          consumed r r \<in> set (otpRecords (snd (verifyOtp s e otp now))) \<and>
          used (consumed r r))))"
proof (cases "getLatestActiveOtp s (normalizeEmail e)")
  case None
  then show ?thesis by (simp add: verifyOtp_None)
next
  case (Some r)
  have m: "r \<in> set (otpRecords s)" using getLatestActiveOtp_Some[OF Some] by simp
  have u: "used (consumed r r)" by (simp add: consumed_def)
  show ?thesis using Some m u by (simp add: verifyOtp_Some)
qed

theorem verifyOtp_never_false_witness:
  "fst (verifyOtp sampleDb ''a@x'' ''100000'' 1000) = Inr True \<and>
   fst (verifyOtp sampleDb ''a@x'' ''100001'' 1000) = Inl InvalidOtpError \<and>
   fst (verifyOtp sampleDb ''a@x'' ''100000'' 30001) = Inl OtpExpiredError \<and>
   fst (verifyOtp sampleDb ''b@x'' ''100000'' 1000) = Inl OtpNotFoundError \<and>
   fst (verifyOtp sampleDb ''a@x'' ''100000'' 1000) \<noteq> Inr False"
proof -
  have b: "normalizeEmail ''b@x'' = ''b@x''" by code_simp
  have n: "getLatestActiveOtp sampleDb ''b@x'' = None"
    by (simp add: getLatestActiveOtp_def sampleDb_def sampleRecord_def isActive_def)
  have t: "trim ''100001'' = ''100001''" by code_simp
  have e: "expiresAt sampleRecord = 30000" "otpCode sampleRecord = ''100000''"
    by (simp_all add: sampleRecord_def)
  show ?thesis
    using verifyOtp_never_false[of sampleDb "''a@x''" "''100000''" 1000]
    by (simp add: verifyOtp_Some[of sampleDb "''a@x''" sampleRecord] verifyOtp_None
        normalizeEmail_sample getLatestActiveOtp_sample trim_sample b n t e)
qed

lemma sampleRecord_fields:
  "id_rec sampleRecord = 0" "email sampleRecord = ''a@x''" "otpCode sampleRecord = ''100000''"
  "createdAt sampleRecord = 0" "expiresAt sampleRecord = 30000" "resendCount sampleRecord = 0"
  "used sampleRecord = False" "invalidated sampleRecord = False"
  by (simp_all add: sampleRecord_def)

lemma sampleDb_fields:
  "otpRecords sampleDb = [sampleRecord]"
  "otpHistory sampleDb = [\<lparr>email_h = ''a@x'', otpCode_h = ''100000'', correlationId_h = ''c'',
                     createdAt_h = 0\<rparr>]"
  "otpRateLimit sampleDb = [\<lparr>email_rl = ''a@x'', correlationId_rl = ''c'', requestedAt_rl = 0\<rparr>]"
  by (simp_all add: sampleDb_def)

lemma defaultConfig_fields:
  "OTP_EXPIRY_SECONDS defaultConfig = 30" "OTP_RESEND_WINDOW_MINUTES defaultConfig = 5"
  "MAX_RESEND_COUNT defaultConfig = 3" "MAX_OTP_REQUESTS_PER_HOUR defaultConfig = 3"
  "OTP_UNIQUENESS_WINDOW_HOURS defaultConfig = 24"
  by (simp_all add: defaultConfig_def)

text \<open>
  C5, as amended. When an active row exists, \<open>verifyOtp\<close> fails with
  \<open>OtpExpiredError\<close> exactly when \<open>now\<close> is strictly after \<open>expiresAt\<close>; at the
  instant \<open>now = expiresAt\<close> it goes on to compare the codes.
\<close>

theorem verifyOtp_expired_iff:
  "getLatestActiveOtp s (normalizeEmail e) = Some r \<Longrightarrow>
     (fst (verifyOtp s e otp now) = Inl OtpExpiredError) = (expiresAt r < now) \<and>
     (now = expiresAt r \<longrightarrow>
        fst (verifyOtp s e otp now) =
          (if trim otp = otpCode r then Inr True else Inl InvalidOtpError))"
  by (simp add: verifyOtp_Some)

theorem verifyOtp_expired_iff_witness:
  "getLatestActiveOtp sampleDb (normalizeEmail ''a@x'') = Some sampleRecord \<and>
   fst (verifyOtp sampleDb ''a@x'' ''100000'' 30001) = Inl OtpExpiredError \<and>
   expiresAt sampleRecord < 30001 \<and>
   fst (verifyOtp sampleDb ''a@x'' ''100000'' 30000) \<noteq> Inl OtpExpiredError"
proof -
  have g: "getLatestActiveOtp sampleDb (normalizeEmail ''a@x'') = Some sampleRecord"
    by (simp add: normalizeEmail_sample getLatestActiveOtp_sample)
  show ?thesis
    using verifyOtp_expired_iff[OF g, of "''100000''" 30001]
      verifyOtp_expired_iff[OF g, of "''100000''" 30000] g
    by (simp add: sampleRecord_fields)
qed

text \<open>
  C9, as amended. With an active unexpired row, a supplied code whose trimmed form differs
  from the stored code makes \<open>verifyOtp\<close> fail with \<open>InvalidOtpError\<close> and leaves
  the whole store as it was. \<open>constantTimeCompare\<close> is true exactly for equal strings.
  On strings of equal length it reads every index, \<open>0\<close> to \<open>length - 1\<close> in order,
  whatever the characters are and wherever they first differ; on strings of unequal
  length it reads none.
\<close>

theorem verifyOtp_mismatch_unchanged:
  "(getLatestActiveOtp s (normalizeEmail e) = Some r \<and> now \<le> expiresAt r \<and>
      trim otp \<noteq> otpCode r \<longrightarrow>
      verifyOtp s e otp now = (Inl InvalidOtpError, s)) \<and>
   constantTimeCompare a b = (a = b) \<and>
   fst (constantTimeCompare_traced a b) = constantTimeCompare a b \<and>
   snd (constantTimeCompare_traced a b) = (if length a = length b then [0..<length a] else [])"
proof (intro conjI impI)
  assume "getLatestActiveOtp s (normalizeEmail e) = Some r \<and> now \<le> expiresAt r \<and>
      trim otp \<noteq> otpCode r"
  then show "verifyOtp s e otp now = (Inl InvalidOtpError, s)"
    by (simp add: verifyOtp_Some)
next
  show "constantTimeCompare a b = (a = b)" by (rule constantTimeCompare_iff)
next
  show "fst (constantTimeCompare_traced a b) = constantTimeCompare a b"
    by (rule constantTimeCompare_traced_fst)
next
  show "snd (constantTimeCompare_traced a b) =
      (if length a = length b then [0..<length a] else [])"
    by (rule constantTimeCompare_traced_snd)
qed

theorem verifyOtp_mismatch_unchanged_witness:
  "getLatestActiveOtp sampleDb (normalizeEmail ''a@x'') = Some sampleRecord \<and>
   (1000 :: int) \<le> expiresAt sampleRecord \<and> trim ''200000'' \<noteq> otpCode sampleRecord \<and>
   verifyOtp sampleDb ''a@x'' ''200000'' 1000 = (Inl InvalidOtpError, sampleDb) \<and>
   constantTimeCompare ''200000'' ''100000'' = False \<and>
   constantTimeCompare_traced ''200000'' ''100000'' = (False, [0, 1, 2, 3, 4, 5])"
proof -
  have g: "getLatestActiveOtp sampleDb (normalizeEmail ''a@x'') = Some sampleRecord"
    by (simp add: normalizeEmail_sample getLatestActiveOtp_sample)
  have t: "trim ''200000'' = ''200000''" by code_simp
  have u: "[0..<6] = [0, 1, 2, 3, 4, 5 :: nat]" by (simp add: upt_rec)
  have p: "\<And>x y z. fst x = y \<Longrightarrow> snd x = z \<Longrightarrow> x = (y, z)" by auto
  show ?thesis
    using verifyOtp_mismatch_unchanged[of sampleDb "''a@x''" sampleRecord 1000 "''200000''"
        "''200000''" "''100000''"] g
    by (simp add: sampleRecord_fields t u p)
qed

section \<open>resendOtp\<close>

lemma resendOtp_None:
  "getLatestActiveOtp s (normalizeEmail e) = None \<Longrightarrow>
   resendOtp cfg s e now d = (Inl OtpNotFoundError, s)"
  by (simp add: resendOtp_def)

lemma resendOtp_Some:
  "getLatestActiveOtp s (normalizeEmail e) = Some r \<Longrightarrow>
   resendOtp cfg s e now d =
     (if createdAt r + OTP_RESEND_WINDOW_MINUTES cfg * 60 * 1000 \<le> now
        then (Inl OtpExpiredError, s)
      else if MAX_RESEND_COUNT cfg \<le> resendCount r then (Inl MaxResendExceededError, s)
      else (if d then Inr (otpCode r) else Inl EmailSendError,
            s\<lparr>otpRecords := map (resent cfg r now) (otpRecords s)\<rparr>))"
  by (simp add: resendOtp_def canResendExistingOtp_def Let_def sendOtpEmail_def
      resent_def[abs_def] not_less)

lemma resent_fields:
  "id_rec (resent cfg r now x) = id_rec x" "email (resent cfg r now x) = email x"
  "otpCode (resent cfg r now x) = otpCode x" "createdAt (resent cfg r now x) = createdAt x"
  "used (resent cfg r now x) = used x" "invalidated (resent cfg r now x) = invalidated x"
  "correlationId (resent cfg r now x) = correlationId x"
  by (simp_all add: resent_def)

text \<open>
  C4. \<open>resendOtp\<close> checks in this order: no active row gives \<open>OtpNotFoundError\<close>;
  a row whose resend window has ended (\<open>now \<ge> createdAt + window\<close>) gives
  \<open>OtpExpiredError\<close>, whatever its resend count; a row inside the window with
  \<open>resendCount \<ge> MAX_RESEND_COUNT\<close> gives \<open>MaxResendExceededError\<close>; each of these
  leaves the store unchanged. Otherwise the row found gets
  \<open>expiresAt = now + OTP_EXPIRY_SECONDS * 1000\<close> and \<open>resendCount + 1\<close>, its code is
  kept and returned, and no row is added to the records or to the history.
\<close>

theorem resendOtp_checks_in_order:
  "(getLatestActiveOtp s (normalizeEmail e) = None \<longrightarrow>
      resendOtp cfg s e now d = (Inl OtpNotFoundError, s)) \<and>
   (getLatestActiveOtp s (normalizeEmail e) = Some r \<longrightarrow>
      (createdAt r + OTP_RESEND_WINDOW_MINUTES cfg * 60 * 1000 \<le> now \<longrightarrow>
         resendOtp cfg s e now d = (Inl OtpExpiredError, s)) \<and>
      (now < createdAt r + OTP_RESEND_WINDOW_MINUTES cfg * 60 * 1000 \<and>
       MAX_RESEND_COUNT cfg \<le> resendCount r \<longrightarrow>
         resendOtp cfg s e now d = (Inl MaxResendExceededError, s)) \<and>
      (now < createdAt r + OTP_RESEND_WINDOW_MINUTES cfg * 60 * 1000 \<and>
       resendCount r < MAX_RESEND_COUNT cfg \<longrightarrow>
         fst (resendOtp cfg s e now d) = (if d then Inr (otpCode r) else Inl EmailSendError) \<and>
         otpRecords (snd (resendOtp cfg s e now d)) = map (resent cfg r now) (otpRecords s) \<and>
         r \<in> set (otpRecords s) \<and>
         expiresAt (resent cfg r now r) = now + OTP_EXPIRY_SECONDS cfg * 1000 \<and>
         resendCount (resent cfg r now r) = resendCount r + 1 \<and>
         otpCode (resent cfg r now r) = otpCode r \<and>
         length (otpRecords (snd (resendOtp cfg s e now d))) = length (otpRecords s) \<and>
         map otpCode (otpRecords (snd (resendOtp cfg s e now d))) = map otpCode (otpRecords s) \<and>
         otpHistory (snd (resendOtp cfg s e now d)) = otpHistory s \<and>
         otpRateLimit (snd (resendOtp cfg s e now d)) = otpRateLimit s))"
proof (intro conjI impI)
  assume "getLatestActiveOtp s (normalizeEmail e) = None"
  then show "resendOtp cfg s e now d = (Inl OtpNotFoundError, s)" by (rule resendOtp_None)
next
  assume g: "getLatestActiveOtp s (normalizeEmail e) = Some r"
    and "createdAt r + OTP_RESEND_WINDOW_MINUTES cfg * 60 * 1000 \<le> now"
  then show "resendOtp cfg s e now d = (Inl OtpExpiredError, s)" by (simp add: resendOtp_Some)
next
  assume g: "getLatestActiveOtp s (normalizeEmail e) = Some r"
    and "now < createdAt r + OTP_RESEND_WINDOW_MINUTES cfg * 60 * 1000 \<and>
       MAX_RESEND_COUNT cfg \<le> resendCount r"
  then show "resendOtp cfg s e now d = (Inl MaxResendExceededError, s)"
    by (simp add: resendOtp_Some)
next
  assume g: "getLatestActiveOtp s (normalizeEmail e) = Some r"
    and c: "now < createdAt r + OTP_RESEND_WINDOW_MINUTES cfg * 60 * 1000 \<and>
       resendCount r < MAX_RESEND_COUNT cfg"
  have res: "resendOtp cfg s e now d =
      (if d then Inr (otpCode r) else Inl EmailSendError,
       s\<lparr>otpRecords := map (resent cfg r now) (otpRecords s)\<rparr>)"
    using c by (simp add: resendOtp_Some[OF g])
  show "fst (resendOtp cfg s e now d) = (if d then Inr (otpCode r) else Inl EmailSendError)"
    by (simp add: res)
  show "otpRecords (snd (resendOtp cfg s e now d)) = map (resent cfg r now) (otpRecords s)"
    by (simp add: res)
  show "r \<in> set (otpRecords s)" using getLatestActiveOtp_Some[OF g] by simp
  show "expiresAt (resent cfg r now r) = now + OTP_EXPIRY_SECONDS cfg * 1000"
    by (simp add: resent_def)
  show "resendCount (resent cfg r now r) = resendCount r + 1" by (simp add: resent_def)
  show "otpCode (resent cfg r now r) = otpCode r" by (simp add: resent_def)
  show "length (otpRecords (snd (resendOtp cfg s e now d))) = length (otpRecords s)"
    by (simp add: res)
  show "map otpCode (otpRecords (snd (resendOtp cfg s e now d))) = map otpCode (otpRecords s)"
    by (simp add: res resent_fields comp_def)
  show "otpHistory (snd (resendOtp cfg s e now d)) = otpHistory s" by (simp add: res)
  show "otpRateLimit (snd (resendOtp cfg s e now d)) = otpRateLimit s" by (simp add: res)
qed

theorem resendOtp_checks_in_order_witness:
  "resendOtp defaultConfig sampleDb ''b@x'' 1000 True = (Inl OtpNotFoundError, sampleDb) \<and>
   resendOtp defaultConfig sampleDb ''a@x'' 300000 True = (Inl OtpExpiredError, sampleDb) \<and>
   resendOtp defaultConfig
     (sampleDb\<lparr>otpRecords := [sampleRecord\<lparr>resendCount := 3\<rparr>]\<rparr>) ''a@x'' 1000 True
     = (Inl MaxResendExceededError, sampleDb\<lparr>otpRecords := [sampleRecord\<lparr>resendCount := 3\<rparr>]\<rparr>) \<and>
   fst (resendOtp defaultConfig sampleDb ''a@x'' 1000 True) = Inr ''100000'' \<and>
   otpRecords (snd (resendOtp defaultConfig sampleDb ''a@x'' 1000 True)) =
     [sampleRecord\<lparr>resendCount := 1, expiresAt := 31000\<rparr>] \<and>
   otpHistory (snd (resendOtp defaultConfig sampleDb ''a@x'' 1000 True)) = otpHistory sampleDb"
proof -
  have b: "normalizeEmail ''b@x'' = ''b@x''" by code_simp
  have n: "getLatestActiveOtp sampleDb (normalizeEmail ''b@x'') = None"
    by (simp add: b getLatestActiveOtp_def sampleDb_def sampleRecord_def isActive_def)
  have g: "getLatestActiveOtp sampleDb (normalizeEmail ''a@x'') = Some sampleRecord"
    by (simp add: normalizeEmail_sample getLatestActiveOtp_sample)
  let ?r3 = "sampleRecord\<lparr>resendCount := 3\<rparr>"
  let ?s3 = "sampleDb\<lparr>otpRecords := [?r3]\<rparr>"
  have g3: "getLatestActiveOtp ?s3 (normalizeEmail ''a@x'') = Some ?r3"
    by (simp add: normalizeEmail_sample getLatestActiveOtp_def isActive_def sampleRecord_def)
  show ?thesis
    using resendOtp_checks_in_order[of sampleDb "''b@x''" defaultConfig 1000 True sampleRecord]
      resendOtp_checks_in_order[of sampleDb "''a@x''" defaultConfig 300000 True sampleRecord]
      resendOtp_checks_in_order[of ?s3 "''a@x''" defaultConfig 1000 True ?r3]
      resendOtp_checks_in_order[of sampleDb "''a@x''" defaultConfig 1000 True sampleRecord]
      n g g3
    by (simp add: sampleRecord_fields sampleDb_fields defaultConfig_fields resent_def)
qed

section \<open>sendOtp\<close>

lemma checkRateLimit_eq:
  "checkRateLimit cfg s ident now =
     (if MAX_OTP_REQUESTS_PER_HOUR cfg \<le> requestsInLastHour s ident now
      then Inl RateLimitError else Inr ())"
  by (simp add: checkRateLimit_def requestsInLastHour_def Let_def)

lemma logged_fields:
  "otpRecords (logged s ident c now) = otpRecords s"
  "otpHistory (logged s ident c now) = otpHistory s"
  "otpRateLimit (logged s ident c now) =
     otpRateLimit s @ [\<lparr>email_rl = ident, correlationId_rl = c, requestedAt_rl = now\<rparr>]"
  by (simp_all add: logged_def)

lemma getLatestActiveOtp_logged:
  "getLatestActiveOtp (logged s ident c now) i = getLatestActiveOtp s i"
  by (simp add: getLatestActiveOtp_def logged_fields)

lemma generateUniqueOtp_logged:
  "generateUniqueOtp cfg (logged s ident c now) i t rnd = generateUniqueOtp cfg s i t rnd"
  by (simp add: generateUniqueOtp_def getUsedOtpsInWindow_def logged_fields)

lemma sendOtp_limited:
  "MAX_OTP_REQUESTS_PER_HOUR cfg \<le> requestsInLastHour s (normalizeEmail e) now \<Longrightarrow>
   sendOtp cfg s e c now now_r rnd d = (Inl RateLimitError, s)"
  by (simp add: sendOtp_def checkRateLimit_eq)

lemma sendOtp_resend_path:
  "requestsInLastHour s (normalizeEmail e) now < MAX_OTP_REQUESTS_PER_HOUR cfg \<Longrightarrow>
   getLatestActiveOtp s (normalizeEmail e) = Some r \<Longrightarrow>
   now < createdAt r + OTP_RESEND_WINDOW_MINUTES cfg * 60 * 1000 \<Longrightarrow>
   sendOtp cfg s e c now now_r rnd d =
     resendOtp cfg (logged s (normalizeEmail e) c now) (normalizeEmail e) now_r d"
  by (simp add: sendOtp_def checkRateLimit_eq Let_def logged_def[symmetric]
      getLatestActiveOtp_logged canResendExistingOtp_def)

lemma sendOtp_new_path:
  "requestsInLastHour s (normalizeEmail e) now < MAX_OTP_REQUESTS_PER_HOUR cfg \<Longrightarrow>
   (case getLatestActiveOtp s (normalizeEmail e) of
      None \<Rightarrow> True
    | Some r \<Rightarrow> createdAt r + OTP_RESEND_WINDOW_MINUTES cfg * 60 * 1000 \<le> now) \<Longrightarrow>
   sendOtp cfg s e c now now_r rnd d =
     (case generateUniqueOtp cfg s (normalizeEmail e) now rnd of
        Inl err \<Rightarrow> (Inl err, logged s (normalizeEmail e) c now)
      | Inr otp \<Rightarrow>
          (if d then Inr otp else Inl EmailSendError,
           issued cfg (logged s (normalizeEmail e) c now) (normalizeEmail e) c now otp))"
  by (auto simp add: sendOtp_def checkRateLimit_eq Let_def logged_def[symmetric]
      getLatestActiveOtp_logged generateUniqueOtp_logged canResendExistingOtp_def
      invalidateOldOtps_def issued_def sendOtpEmail_def
      split: option.splits sum.splits)


section \<open>The number of active rows\<close>

lemma filter_map_same:
  "(\<And>x. P (f x) = P x) \<Longrightarrow> length (filter P (map f xs)) = length (filter P xs)"
  by (induction xs) simp_all

lemma filter_map_le:
  "(\<And>x. P (f x) \<Longrightarrow> P x) \<Longrightarrow> length (filter P (map f xs)) \<le> length (filter P xs)"
  by (induction xs) auto

lemma isActive_resent: "isActive i (resent cfg r now x) = isActive i x"
  by (simp add: isActive_def resent_fields)

lemma consumed_fields:
  "id_rec (consumed r x) = id_rec x" "email (consumed r x) = email x"
  "otpCode (consumed r x) = otpCode x" "createdAt (consumed r x) = createdAt x"
  "invalidated (consumed r x) = invalidated x" "expiresAt (consumed r x) = expiresAt x"
  "resendCount (consumed r x) = resendCount x"
  by (simp_all add: consumed_def)

lemma isActive_consumed: "isActive i (consumed r x) \<Longrightarrow> isActive i x"
  by (simp add: isActive_def consumed_def split: if_splits)

lemma otpRecords_resendOtp:
  "otpRecords (snd (resendOtp cfg s e now d)) = otpRecords s \<or>
   (\<exists>r \<in> set (otpRecords s).
      otpRecords (snd (resendOtp cfg s e now d)) = map (resent cfg r now) (otpRecords s))"
proof (cases "getLatestActiveOtp s (normalizeEmail e)")
  case None
  then show ?thesis by (simp add: resendOtp_None)
next
  case (Some r)
  have "r \<in> set (otpRecords s)" using getLatestActiveOtp_Some[OF Some] by simp
  then show ?thesis by (auto simp add: resendOtp_Some[OF Some])
qed

lemma otpRecords_verifyOtp:
  "otpRecords (snd (verifyOtp s e otp now)) = otpRecords s \<or>
   (\<exists>r \<in> set (otpRecords s).
      otpRecords (snd (verifyOtp s e otp now)) = map (consumed r) (otpRecords s))"
proof (cases "getLatestActiveOtp s (normalizeEmail e)")
  case None
  then show ?thesis by (simp add: verifyOtp_None)
next
  case (Some r)
  have "r \<in> set (otpRecords s)" using getLatestActiveOtp_Some[OF Some] by simp
  then show ?thesis by (auto simp add: verifyOtp_Some[OF Some])
qed

lemma activeCount_resendOtp: "activeCount (snd (resendOtp cfg s e now d)) i = activeCount s i"
proof -
  have "\<And>r. length (filter (isActive i) (map (resent cfg r now) (otpRecords s)))
      = length (filter (isActive i) (otpRecords s))"
    by (rule filter_map_same) (rule isActive_resent)
  then show ?thesis
    using otpRecords_resendOtp[of cfg s e now d]
    by (auto simp add: activeCount_def simp del: filter_map length_filter_map)
qed

lemma activeCount_verifyOtp: "activeCount (snd (verifyOtp s e otp now)) i \<le> activeCount s i"
proof -
  have "\<And>r. length (filter (isActive i) (map (consumed r) (otpRecords s)))
      \<le> length (filter (isActive i) (otpRecords s))"
    by (rule filter_map_le) (rule isActive_consumed)
  then show ?thesis
    using otpRecords_verifyOtp[of s e otp now]
    by (auto simp add: activeCount_def simp del: filter_map length_filter_map)
qed

lemma activeCount_logged: "activeCount (logged s ident c now) i = activeCount s i"
  by (simp add: activeCount_def logged_fields)

lemma isActive_invalidated: "\<not> isActive i (r\<lparr>invalidated := True\<rparr>)"
  by (simp add: isActive_def)

lemma isActive_email: "isActive i r \<Longrightarrow> isActive j r \<Longrightarrow> i = j"
  by (simp add: isActive_def)

lemma filter_invalidated:
  "filter (isActive i) (map (\<lambda>r. if isActive ident r then r\<lparr>invalidated := True\<rparr> else r) xs) =
     (if i = ident then [] else filter (isActive i) xs)"
  by (induction xs) (auto simp add: isActive_invalidated dest: isActive_email)

lemma activeCount_invalidateOldOtps:
  "activeCount (invalidateOldOtps s ident) i = (if i = ident then 0 else activeCount s i)"
  by (simp add: activeCount_def invalidateOldOtps_def filter_invalidated
      del: filter_map length_filter_map)

lemma isActive_fresh:
  "isActive i \<lparr>id_rec = n, email = ident, otpCode = otp, correlationId = c, createdAt = t,
      expiresAt = x, resendCount = k, used = False, invalidated = False\<rparr> = (ident = i)"
  by (simp add: isActive_def)

lemma activeCount_issued:
  "activeCount (issued cfg s ident c now otp) i = (if i = ident then 1 else activeCount s i)"
  by (auto simp add: activeCount_def issued_def filter_invalidated isActive_fresh
      simp del: filter_map length_filter_map)

lemma otpRecords_sendOtp:
  "length (otpRecords (snd (sendOtp cfg s e c now now_r rnd d))) = length (otpRecords s) \<and>
     (\<forall>i. activeCount (snd (sendOtp cfg s e c now now_r rnd d)) i = activeCount s i) \<or>
   (\<exists>otp. snd (sendOtp cfg s e c now now_r rnd d) =
      issued cfg (logged s (normalizeEmail e) c now) (normalizeEmail e) c now otp)"
proof (cases "MAX_OTP_REQUESTS_PER_HOUR cfg \<le> requestsInLastHour s (normalizeEmail e) now")
  case True
  then show ?thesis by (simp add: sendOtp_limited)
next
  case False
  then have lt: "requestsInLastHour s (normalizeEmail e) now < MAX_OTP_REQUESTS_PER_HOUR cfg"
    by simp
  show ?thesis
  proof (cases "case getLatestActiveOtp s (normalizeEmail e) of None \<Rightarrow> True
      | Some r \<Rightarrow> createdAt r + OTP_RESEND_WINDOW_MINUTES cfg * 60 * 1000 \<le> now")
    case True
    show ?thesis
    proof (cases "generateUniqueOtp cfg s (normalizeEmail e) now rnd")
      case (Inl err)
      then show ?thesis
        by (simp add: sendOtp_new_path[OF lt True] logged_fields activeCount_logged)
    next
      case (Inr code)
      then have "snd (sendOtp cfg s e c now now_r rnd d) =
          issued cfg (logged s (normalizeEmail e) c now) (normalizeEmail e) c now code"
        by (simp add: sendOtp_new_path[OF lt True])
      then show ?thesis by blast
    qed
  next
    case False
    then obtain r where r: "getLatestActiveOtp s (normalizeEmail e) = Some r"
      and w: "now < createdAt r + OTP_RESEND_WINDOW_MINUTES cfg * 60 * 1000"
      by (auto split: option.splits)
    have a: "\<And>i. activeCount (snd (sendOtp cfg s e c now now_r rnd d)) i = activeCount s i"
      by (simp add: sendOtp_resend_path[OF lt r w] activeCount_resendOtp activeCount_logged)
    have "length (otpRecords (snd (sendOtp cfg s e c now now_r rnd d))) = length (otpRecords s)"
      using otpRecords_resendOtp[of cfg "logged s (normalizeEmail e) c now" "normalizeEmail e" now_r d]
      by (auto simp add: sendOtp_resend_path[OF lt r w] logged_fields)
    with a show ?thesis by simp
  qed
qed

lemma activeCount_sendOtp:
  "activeCount s i \<le> 1 \<Longrightarrow> activeCount (snd (sendOtp cfg s e c now now_r rnd d)) i \<le> 1"
  using otpRecords_sendOtp[of cfg s e c now now_r rnd d]
  by (auto simp add: activeCount_issued activeCount_logged)

lemma activeCount_step: "activeCount s i \<le> 1 \<Longrightarrow> activeCount (step cfg s op) i \<le> 1"
proof (cases op)
  case (Send e c now now_r rnd d)
  assume "activeCount s i \<le> 1"
  then show ?thesis using Send activeCount_sendOtp[of s i cfg e c now now_r rnd d] by simp
next
  case (Resend e now d)
  assume "activeCount s i \<le> 1"
  then show ?thesis using Resend by (simp add: activeCount_resendOtp)
next
  case (Verify e code now)
  assume "activeCount s i \<le> 1"
  then show ?thesis using Verify activeCount_verifyOtp[of s e code now i] by simp
qed

lemma run_snoc: "run cfg (ops @ [op]) = step cfg (run cfg ops) op"
  by (simp add: run_def)

lemma run_Nil: "run cfg [] = emptyDb"
  by (simp add: run_def)

lemma activeCount_run: "activeCount (run cfg ops) i \<le> 1"
proof (induction ops rule: rev_induct)
  case Nil
  show ?case by (simp add: run_Nil emptyDb_def activeCount_def)
next
  case (snoc op ops)
  then show ?case using activeCount_step[of "run cfg ops" i cfg op] by (simp add: run_snoc)
qed




section \<open>Evaluation on the sample store\<close>

lemma generateUniqueOtp_loop_error:
  "generateUniqueOtp_loop usedOtps rnd i = Inl err \<Longrightarrow> err = HighDemandError"
proof (induction usedOtps rnd i rule: generateUniqueOtp_loop.induct)
  case (1 usedOtps rnd i)
  from "1.prems" show ?case
    by (subst (asm) generateUniqueOtp_loop.simps)
      (auto simp add: Let_def split: if_splits dest: "1.IH")
qed

lemma generateUniqueOtp_loop_result:
  "generateUniqueOtp_loop usedOtps rnd i = Inr otp \<Longrightarrow>
   otp \<notin> usedOtps \<and> (\<exists>j. i \<le> j \<and> j < 100 \<and> otp = generateOTP (rnd j))"
proof (induction usedOtps rnd i rule: generateUniqueOtp_loop.induct)
  case (1 usedOtps rnd i)
  show ?case
  proof (cases "i < 100")
    case True
    show ?thesis
    proof (cases "generateOTP (rnd i) \<notin> usedOtps")
      case fresh: True
      from "1.prems" True fresh have "otp = generateOTP (rnd i)"
        by (subst (asm) generateUniqueOtp_loop.simps) (simp add: Let_def)
      with True fresh show ?thesis by auto
    next
      case False
      from "1.prems" True False have "generateUniqueOtp_loop usedOtps rnd (i + 1) = Inr otp"
        by (subst (asm) generateUniqueOtp_loop.simps) (simp add: Let_def)
      with "1.IH"[OF True refl False] have
        "otp \<notin> usedOtps \<and> (\<exists>j. i + 1 \<le> j \<and> j < 100 \<and> otp = generateOTP (rnd j))" by simp
      then obtain j where "otp \<notin> usedOtps" "i \<le> j" "j < 100" "otp = generateOTP (rnd j)"
        by auto
      then show ?thesis by blast
    qed
  next
    case False
    with "1.prems" show ?thesis
      by (subst (asm) generateUniqueOtp_loop.simps) simp
  qed
qed

lemma generateUniqueOtp_first:
  "generateOTP (rnd 0) \<notin> getUsedOtpsInWindow s ident (OTP_UNIQUENESS_WINDOW_HOURS cfg) now \<Longrightarrow>
   generateUniqueOtp cfg s ident now rnd = Inr (generateOTP (rnd 0))"
  by (simp add: generateUniqueOtp_def Let_def) (subst generateUniqueOtp_loop.simps, simp)

lemma generateOTP_constDraw_0: "generateOTP (constDraw 0 i) = ''100000''"
  by (simp add: constDraw_def generateOTP_eval)

lemma emptyDb_fields:
  "otpRecords emptyDb = []" "otpHistory emptyDb = []" "otpRateLimit emptyDb = []"
  by (simp_all add: emptyDb_def)

lemma sendOtp_emptyDb:
  "sendOtp defaultConfig emptyDb ''a@x'' ''c'' 0 0 (constDraw 0) True = (Inr ''100000'', sampleDb)"
proof -
  have q: "requestsInLastHour emptyDb (normalizeEmail ''a@x'') 0
      < MAX_OTP_REQUESTS_PER_HOUR defaultConfig"
    by (simp add: requestsInLastHour_def emptyDb_fields defaultConfig_fields)
  have n: "case getLatestActiveOtp emptyDb (normalizeEmail ''a@x'') of None \<Rightarrow> True
      | Some r \<Rightarrow> createdAt r + OTP_RESEND_WINDOW_MINUTES defaultConfig * 60 * 1000 \<le> 0"
    by (simp add: getLatestActiveOtp_def emptyDb_fields)
  have g: "generateUniqueOtp defaultConfig emptyDb (normalizeEmail ''a@x'') 0 (constDraw 0)
      = Inr ''100000''"
    using generateUniqueOtp_first[of "constDraw 0" emptyDb "normalizeEmail ''a@x''" defaultConfig 0]
    by (simp add: getUsedOtpsInWindow_def emptyDb_fields generateOTP_constDraw_0)
  show ?thesis
    unfolding sendOtp_new_path[OF q n] g
    by (simp add: normalizeEmail_sample issued_def logged_def
        emptyDb_def sampleDb_def sampleRecord_def defaultConfig_fields)
qed

lemma run_sample: "run defaultConfig [Send ''a@x'' ''c'' 0 0 (constDraw 0) True] = sampleDb"
  by (simp add: run_def sendOtp_emptyDb)

text \<open>
  The claim C5 as stated (expired when \<open>now \<ge> expiresAt\<close>) fails at the boundary:
  the row expires at 30000 and a verification at 30000 succeeds.
\<close>

theorem verifyOtp_boundary_counterexample:
  "run defaultConfig [Send ''a@x'' ''c'' 0 0 (constDraw 0) True] = sampleDb \<and>
   getLatestActiveOtp sampleDb (normalizeEmail ''a@x'') = Some sampleRecord \<and>
   expiresAt sampleRecord = 30000 \<and>
   fst (verifyOtp sampleDb ''a@x'' ''100000'' 30000) = Inr True"
proof -
  have g: "getLatestActiveOtp sampleDb (normalizeEmail ''a@x'') = Some sampleRecord"
    by (simp add: normalizeEmail_sample getLatestActiveOtp_sample)
  show ?thesis
    by (simp add: run_sample g verifyOtp_Some[OF g] sampleRecord_fields trim_sample)
qed

text \<open>
  The claim C9 as stated (any supplied code different from the stored one is rejected)
  fails: the supplied code is trimmed first, so a code with a leading blank is accepted.
\<close>

theorem verifyOtp_trims_counterexample:
  "run defaultConfig [Send ''a@x'' ''c'' 0 0 (constDraw 0) True] = sampleDb \<and>
   getLatestActiveOtp sampleDb (normalizeEmail ''a@x'') = Some sampleRecord \<and>
   (1000 :: int) \<le> expiresAt sampleRecord \<and> '' 100000'' \<noteq> otpCode sampleRecord \<and>
   fst (verifyOtp sampleDb ''a@x'' '' 100000'' 1000) = Inr True \<and>
   map used (otpRecords (snd (verifyOtp sampleDb ''a@x'' '' 100000'' 1000))) = [True]"
proof -
  have g: "getLatestActiveOtp sampleDb (normalizeEmail ''a@x'') = Some sampleRecord"
    by (simp add: normalizeEmail_sample getLatestActiveOtp_sample)
  show ?thesis
    by (simp add: run_sample g verifyOtp_Some[OF g] sampleRecord_fields sampleDb_fields
        trim_sample consumed_def)
qed

lemma activeCount_sample: "activeCount sampleDb ''a@x'' = 1"
  by (simp add: activeCount_def sampleDb_fields isActive_def sampleRecord_fields)


section \<open>The rate-limit log\<close>

lemma otpRateLimit_resendOtp: "otpRateLimit (snd (resendOtp cfg s e now d)) = otpRateLimit s"
  by (cases "getLatestActiveOtp s (normalizeEmail e)")
    (simp_all add: resendOtp_None resendOtp_Some)

lemma otpRateLimit_verifyOtp: "otpRateLimit (snd (verifyOtp s e otp now)) = otpRateLimit s"
  by (cases "getLatestActiveOtp s (normalizeEmail e)")
    (simp_all add: verifyOtp_None verifyOtp_Some)

lemma resendOtp_not_limited: "fst (resendOtp cfg s e now d) \<noteq> Inl RateLimitError"
  by (cases "getLatestActiveOtp s (normalizeEmail e)")
    (simp_all add: resendOtp_None resendOtp_Some)

lemma generateUniqueOtp_error:
  "generateUniqueOtp cfg s ident now rnd = Inl err \<Longrightarrow> err = HighDemandError"
  by (simp add: generateUniqueOtp_def Let_def generateUniqueOtp_loop_error)

lemma sendOtp_passed:
  assumes lt: "requestsInLastHour s (normalizeEmail e) now < MAX_OTP_REQUESTS_PER_HOUR cfg"
  shows "otpRateLimit (snd (sendOtp cfg s e c now now_r rnd d)) =
      otpRateLimit s @
        [\<lparr>email_rl = normalizeEmail e, correlationId_rl = c, requestedAt_rl = now\<rparr>] \<and>
     fst (sendOtp cfg s e c now now_r rnd d) \<noteq> Inl RateLimitError"
proof (cases "case getLatestActiveOtp s (normalizeEmail e) of None \<Rightarrow> True
      | Some r \<Rightarrow> createdAt r + OTP_RESEND_WINDOW_MINUTES cfg * 60 * 1000 \<le> now")
  case True
  show ?thesis
  proof (cases "generateUniqueOtp cfg s (normalizeEmail e) now rnd")
    case (Inl err)
    then have "err = HighDemandError" by (rule generateUniqueOtp_error)
    with Inl show ?thesis by (simp add: sendOtp_new_path[OF lt True] logged_fields)
  next
    case (Inr code)
    then show ?thesis
      by (simp add: sendOtp_new_path[OF lt True] issued_def logged_fields)
  qed
next
  case False
  then obtain r where r: "getLatestActiveOtp s (normalizeEmail e) = Some r"
    and w: "now < createdAt r + OTP_RESEND_WINDOW_MINUTES cfg * 60 * 1000"
    by (auto split: option.splits)
  show ?thesis
    by (simp add: sendOtp_resend_path[OF lt r w] otpRateLimit_resendOtp logged_fields
        resendOtp_not_limited)
qed

text \<open>
  C7. A \<open>sendOtp\<close> call that finds fewer than \<open>MAX_OTP_REQUESTS_PER_HOUR\<close> entries
  of the identity in the last hour appends exactly one entry to the rate-limit log,
  whichever path it then takes (new code, resend, or a later error), and does not fail
  with \<open>RateLimitError\<close>; a call that finds the maximum or more fails with
  \<open>RateLimitError\<close> and writes nothing; \<open>resendOtp\<close> and \<open>verifyOtp\<close> never touch
  the log.
\<close>

theorem rate_limit_log_frame:
  "(requestsInLastHour s (normalizeEmail e) now < MAX_OTP_REQUESTS_PER_HOUR cfg \<longrightarrow>
      otpRateLimit (snd (sendOtp cfg s e c now now_r rnd d)) =
        otpRateLimit s @
          [\<lparr>email_rl = normalizeEmail e, correlationId_rl = c, requestedAt_rl = now\<rparr>] \<and>
      fst (sendOtp cfg s e c now now_r rnd d) \<noteq> Inl RateLimitError) \<and>
   (MAX_OTP_REQUESTS_PER_HOUR cfg \<le> requestsInLastHour s (normalizeEmail e) now \<longrightarrow>
      sendOtp cfg s e c now now_r rnd d = (Inl RateLimitError, s)) \<and>
   otpRateLimit (snd (resendOtp cfg s e now d)) = otpRateLimit s \<and>
   otpRateLimit (snd (verifyOtp s e otp now)) = otpRateLimit s"
  using sendOtp_passed[where s = s and e = e and now = now and cfg = cfg and c = c
      and rnd = rnd and d = d]
    sendOtp_limited[where s = s and e = e and now = now and cfg = cfg and c = c
      and rnd = rnd and d = d]
  by (simp add: otpRateLimit_resendOtp otpRateLimit_verifyOtp)

section \<open>Runs that reach the sample stores\<close>

lemmas service_eval =
  sendOtp_def resendOtp_def verifyOtp_def checkRateLimit_def getLatestActiveOtp_def
  isActive_def canResendExistingOtp_def sendOtpEmail_def Let_def normalizeEmail_sample
  sampleDb_def sampleRecord_def defaultConfig_def

lemma run_resendExhausted:
  "run defaultConfig
     [Send ''a@x'' ''c'' 0 0 (constDraw 0) True, Resend ''a@x'' 1000 True,
      Resend ''a@x'' 2000 True, Resend ''a@x'' 3000 True] = resendExhaustedDb"
  by (simp add: run_def sendOtp_emptyDb resendExhaustedDb_def)
    (simp add: service_eval)

lemma run_rateLimited:
  "run defaultConfig
     [Send ''a@x'' ''c'' 0 0 (constDraw 0) True, Send ''a@x'' ''c'' 1000 1000 (constDraw 0) True,
      Send ''a@x'' ''c'' 2000 2000 (constDraw 0) True] = rateLimitedDb"
  by (simp add: run_def sendOtp_emptyDb rateLimitedDb_def)
    (simp add: service_eval)


theorem rate_limit_log_frame_witness:
  "requestsInLastHour sampleDb (normalizeEmail ''a@x'') 1000
     < MAX_OTP_REQUESTS_PER_HOUR defaultConfig \<and>
   otpRateLimit (snd (sendOtp defaultConfig sampleDb ''a@x'' ''c'' 1000 1000 (constDraw 0) True)) =
     otpRateLimit sampleDb @
       [\<lparr>email_rl = ''a@x'', correlationId_rl = ''c'', requestedAt_rl = 1000\<rparr>] \<and>
   MAX_OTP_REQUESTS_PER_HOUR defaultConfig
     \<le> requestsInLastHour rateLimitedDb (normalizeEmail ''a@x'') 3000 \<and>
   sendOtp defaultConfig rateLimitedDb ''a@x'' ''c'' 3000 3000 (constDraw 0) True
     = (Inl RateLimitError, rateLimitedDb) \<and>
   otpRateLimit (snd (resendOtp defaultConfig sampleDb ''a@x'' 1000 True))
     = otpRateLimit sampleDb"
proof -
  have a: "requestsInLastHour sampleDb (normalizeEmail ''a@x'') 1000
     < MAX_OTP_REQUESTS_PER_HOUR defaultConfig"
    by (simp add: requestsInLastHour_def normalizeEmail_sample sampleDb_fields
        defaultConfig_fields)
  have b: "MAX_OTP_REQUESTS_PER_HOUR defaultConfig
     \<le> requestsInLastHour rateLimitedDb (normalizeEmail ''a@x'') 3000"
    by (simp add: requestsInLastHour_def normalizeEmail_sample rateLimitedDb_def
        defaultConfig_fields)
  show ?thesis
    using rate_limit_log_frame[where s = sampleDb and e = "''a@x''" and now = 1000
        and cfg = defaultConfig and c = "''c''" and rnd = "constDraw 0" and d = True]
      rate_limit_log_frame[where s = rateLimitedDb and e = "''a@x''" and now = 3000
        and cfg = defaultConfig and c = "''c''" and rnd = "constDraw 0" and d = True]
      a b
    by (simp add: normalizeEmail_sample)
qed

section \<open>A send inside the resend window\<close>

lemma sendOtp_resends:
  assumes lt: "requestsInLastHour s (normalizeEmail e) now < MAX_OTP_REQUESTS_PER_HOUR cfg"
    and r: "getLatestActiveOtp s (normalizeEmail e) = Some r"
    and w: "now < createdAt r + OTP_RESEND_WINDOW_MINUTES cfg * 60 * 1000"
    and w2: "now_r < createdAt r + OTP_RESEND_WINDOW_MINUTES cfg * 60 * 1000"
    and k: "resendCount r < MAX_RESEND_COUNT cfg"
  shows "sendOtp cfg s e c now now_r rnd d =
     (if d then Inr (otpCode r) else Inl EmailSendError,
      (logged s (normalizeEmail e) c now)\<lparr>otpRecords := map (resent cfg r now_r) (otpRecords s)\<rparr>)"
proof -
  have g: "getLatestActiveOtp (logged s (normalizeEmail e) c now)
      (normalizeEmail (normalizeEmail e)) = Some r"
    by (simp add: normalizeEmail_idem getLatestActiveOtp_logged r)
  show ?thesis
    using w2 k by (simp add: sendOtp_resend_path[OF lt r w] resendOtp_Some[OF g] logged_fields)
qed

text \<open>
  Two more outcomes of a send that finds the active row inside its window. Neither is
  among the errors the documentation of \<open>sendOtp\<close> names, and the route of the send
  entry point handles neither: with \<open>resendCount\<close> at the maximum the call ends in
  \<open>MaxResendExceededError\<close>, and when the window ends between the two clock readings it
  ends in \<open>OtpExpiredError\<close>. In both the rate-limit entry stays written.
\<close>

lemma sendOtp_max_resend:
  assumes lt: "requestsInLastHour s (normalizeEmail e) now < MAX_OTP_REQUESTS_PER_HOUR cfg"
    and r: "getLatestActiveOtp s (normalizeEmail e) = Some r"
    and w: "now < createdAt r + OTP_RESEND_WINDOW_MINUTES cfg * 60 * 1000"
    and w2: "now_r < createdAt r + OTP_RESEND_WINDOW_MINUTES cfg * 60 * 1000"
    and k: "MAX_RESEND_COUNT cfg \<le> resendCount r"
  shows "sendOtp cfg s e c now now_r rnd d =
     (Inl MaxResendExceededError, logged s (normalizeEmail e) c now)"
proof -
  have g: "getLatestActiveOtp (logged s (normalizeEmail e) c now)
      (normalizeEmail (normalizeEmail e)) = Some r"
    by (simp add: normalizeEmail_idem getLatestActiveOtp_logged r)
  show ?thesis
    using w2 k by (simp add: sendOtp_resend_path[OF lt r w] resendOtp_Some[OF g])
qed

lemma sendOtp_window_ends:
  assumes lt: "requestsInLastHour s (normalizeEmail e) now < MAX_OTP_REQUESTS_PER_HOUR cfg"
    and r: "getLatestActiveOtp s (normalizeEmail e) = Some r"
    and w: "now < createdAt r + OTP_RESEND_WINDOW_MINUTES cfg * 60 * 1000"
    and w2: "createdAt r + OTP_RESEND_WINDOW_MINUTES cfg * 60 * 1000 \<le> now_r"
  shows "sendOtp cfg s e c now now_r rnd d =
     (Inl OtpExpiredError, logged s (normalizeEmail e) c now)"
proof -
  have g: "getLatestActiveOtp (logged s (normalizeEmail e) c now)
      (normalizeEmail (normalizeEmail e)) = Some r"
    by (simp add: normalizeEmail_idem getLatestActiveOtp_logged r)
  show ?thesis
    using w2 by (simp add: sendOtp_resend_path[OF lt r w] resendOtp_Some[OF g])
qed

text \<open>
  C6, as amended. A send that passes the rate-limit gate and finds the identity's active
  row inside its resend window, at its own clock reading and at the reading of the
  resend it hands over to, with the row's \<open>resendCount\<close> below \<open>MAX_RESEND_COUNT\<close>,
  returns the code of that row, adds no row (the number of active rows of every identity
  stays the same) and writes \<open>expiresAt = now_r + OTP_EXPIRY_SECONDS * 1000\<close> and
  \<open>resendCount + 1\<close> on the row. The code is the result when the mail is delivered; the
  store changes in the same way when it is not. A send stopped by the rate-limit gate
  fails with \<open>RateLimitError\<close> and writes nothing. Nothing is stated for a send that
  finds \<open>resendCount\<close> at the maximum or whose window ends between the two readings.
\<close>

theorem sendOtp_within_window:
  "(requestsInLastHour s (normalizeEmail e) now < MAX_OTP_REQUESTS_PER_HOUR cfg \<and>
    getLatestActiveOtp s (normalizeEmail e) = Some r \<and>
    now < createdAt r + OTP_RESEND_WINDOW_MINUTES cfg * 60 * 1000 \<and>
    now_r < createdAt r + OTP_RESEND_WINDOW_MINUTES cfg * 60 * 1000 \<and>
    resendCount r < MAX_RESEND_COUNT cfg \<longrightarrow>
      fst (sendOtp cfg s e c now now_r rnd d) =
        (if d then Inr (otpCode r) else Inl EmailSendError) \<and>
      otpRecords (snd (sendOtp cfg s e c now now_r rnd d)) =
        map (resent cfg r now_r) (otpRecords s) \<and>
      r \<in> set (otpRecords s) \<and>
      expiresAt (resent cfg r now_r r) = now_r + OTP_EXPIRY_SECONDS cfg * 1000 \<and>
      resendCount (resent cfg r now_r r) = resendCount r + 1 \<and>
      otpCode (resent cfg r now_r r) = otpCode r \<and>
      length (otpRecords (snd (sendOtp cfg s e c now now_r rnd d))) = length (otpRecords s) \<and>
      activeCount (snd (sendOtp cfg s e c now now_r rnd d)) ident = activeCount s ident \<and>
      otpHistory (snd (sendOtp cfg s e c now now_r rnd d)) = otpHistory s) \<and>
   (MAX_OTP_REQUESTS_PER_HOUR cfg \<le> requestsInLastHour s (normalizeEmail e) now \<longrightarrow>
      sendOtp cfg s e c now now_r rnd d = (Inl RateLimitError, s))"
proof (intro conjI impI)
  assume "MAX_OTP_REQUESTS_PER_HOUR cfg \<le> requestsInLastHour s (normalizeEmail e) now"
  then show "sendOtp cfg s e c now now_r rnd d = (Inl RateLimitError, s)"
    by (rule sendOtp_limited)
next
  assume h: "requestsInLastHour s (normalizeEmail e) now < MAX_OTP_REQUESTS_PER_HOUR cfg \<and>
    getLatestActiveOtp s (normalizeEmail e) = Some r \<and>
    now < createdAt r + OTP_RESEND_WINDOW_MINUTES cfg * 60 * 1000 \<and>
    now_r < createdAt r + OTP_RESEND_WINDOW_MINUTES cfg * 60 * 1000 \<and>
    resendCount r < MAX_RESEND_COUNT cfg"
  then have lt: "requestsInLastHour s (normalizeEmail e) now < MAX_OTP_REQUESTS_PER_HOUR cfg"
    and r: "getLatestActiveOtp s (normalizeEmail e) = Some r"
    and w: "now < createdAt r + OTP_RESEND_WINDOW_MINUTES cfg * 60 * 1000"
    and w2: "now_r < createdAt r + OTP_RESEND_WINDOW_MINUTES cfg * 60 * 1000"
    and k: "resendCount r < MAX_RESEND_COUNT cfg"
    by simp_all
  note eq = sendOtp_resends[OF lt r w w2 k, of c rnd d]
  show "fst (sendOtp cfg s e c now now_r rnd d) =
      (if d then Inr (otpCode r) else Inl EmailSendError)"
    by (simp add: eq)
  show "otpRecords (snd (sendOtp cfg s e c now now_r rnd d)) =
      map (resent cfg r now_r) (otpRecords s)"
    by (simp add: eq)
  show "r \<in> set (otpRecords s)" using getLatestActiveOtp_Some[OF r] by simp
  show "expiresAt (resent cfg r now_r r) = now_r + OTP_EXPIRY_SECONDS cfg * 1000"
    by (simp add: resent_def)
  show "resendCount (resent cfg r now_r r) = resendCount r + 1" by (simp add: resent_def)
  show "otpCode (resent cfg r now_r r) = otpCode r" by (simp add: resent_def)
  show "length (otpRecords (snd (sendOtp cfg s e c now now_r rnd d))) = length (otpRecords s)"
    by (simp add: eq)
  show "activeCount (snd (sendOtp cfg s e c now now_r rnd d)) ident = activeCount s ident"
    by (simp add: sendOtp_resend_path[OF lt r w] activeCount_resendOtp activeCount_logged)
  show "otpHistory (snd (sendOtp cfg s e c now now_r rnd d)) = otpHistory s"
    by (simp add: eq logged_fields)
qed

theorem sendOtp_within_window_witness:
  "fst (sendOtp defaultConfig emptyDb ''a@x'' ''c'' 0 0 (constDraw 0) True) = Inr ''100000'' \<and>
   snd (sendOtp defaultConfig emptyDb ''a@x'' ''c'' 0 0 (constDraw 0) True) = sampleDb \<and>
   requestsInLastHour sampleDb (normalizeEmail ''a@x'') 1000
     < MAX_OTP_REQUESTS_PER_HOUR defaultConfig \<and>
   getLatestActiveOtp sampleDb (normalizeEmail ''a@x'') = Some sampleRecord \<and>
   1000 < createdAt sampleRecord + OTP_RESEND_WINDOW_MINUTES defaultConfig * 60 * 1000 \<and>
   1002 < createdAt sampleRecord + OTP_RESEND_WINDOW_MINUTES defaultConfig * 60 * 1000 \<and>
   resendCount sampleRecord < MAX_RESEND_COUNT defaultConfig \<and>
   fst (sendOtp defaultConfig sampleDb ''a@x'' ''c'' 1000 1002 (constDraw (1/2)) True)
     = Inr ''100000'' \<and>
   otpRecords (snd (sendOtp defaultConfig sampleDb ''a@x'' ''c'' 1000 1002 (constDraw (1/2)) True))
     = [sampleRecord\<lparr>resendCount := 1, expiresAt := 31002\<rparr>] \<and>
   activeCount (snd (sendOtp defaultConfig sampleDb ''a@x'' ''c'' 1000 1002 (constDraw (1/2)) True))
     ''a@x'' = 1 \<and>
   MAX_OTP_REQUESTS_PER_HOUR defaultConfig
     \<le> requestsInLastHour rateLimitedDb (normalizeEmail ''a@x'') 3000 \<and>
   sendOtp defaultConfig rateLimitedDb ''a@x'' ''c'' 3000 3000 (constDraw 0) True
     = (Inl RateLimitError, rateLimitedDb)"
proof -
  have a: "requestsInLastHour sampleDb (normalizeEmail ''a@x'') 1000
     < MAX_OTP_REQUESTS_PER_HOUR defaultConfig"
    by (simp add: requestsInLastHour_def normalizeEmail_sample sampleDb_fields
        defaultConfig_fields)
  have g: "getLatestActiveOtp sampleDb (normalizeEmail ''a@x'') = Some sampleRecord"
    by (simp add: normalizeEmail_sample getLatestActiveOtp_sample)
  have w: "1000 < createdAt sampleRecord + OTP_RESEND_WINDOW_MINUTES defaultConfig * 60 * 1000"
    by (simp add: sampleRecord_fields defaultConfig_fields)
  have w2: "1002 < createdAt sampleRecord + OTP_RESEND_WINDOW_MINUTES defaultConfig * 60 * 1000"
    by (simp add: sampleRecord_fields defaultConfig_fields)
  have k: "resendCount sampleRecord < MAX_RESEND_COUNT defaultConfig"
    by (simp add: sampleRecord_fields defaultConfig_fields)
  have b: "MAX_OTP_REQUESTS_PER_HOUR defaultConfig
     \<le> requestsInLastHour rateLimitedDb (normalizeEmail ''a@x'') 3000"
    by (simp add: requestsInLastHour_def normalizeEmail_sample rateLimitedDb_def
        defaultConfig_fields)
  show ?thesis
    using sendOtp_within_window[where s = sampleDb and e = "''a@x''" and now = 1000
        and now_r = 1002 and cfg = defaultConfig and r = sampleRecord and c = "''c''"
        and rnd = "constDraw (1/2)" and d = True and ident = "''a@x''"]
      sendOtp_within_window[where s = rateLimitedDb and e = "''a@x''" and now = 3000
        and now_r = 3000 and cfg = defaultConfig and r = sampleRecord and c = "''c''"
        and rnd = "constDraw 0" and d = True and ident = "''a@x''"]
      a g w w2 k b
    by (simp add: sendOtp_emptyDb sampleDb_fields sampleRecord_fields defaultConfig_fields
        resent_def activeCount_sample)
qed

text \<open>
  The claim C6 as stated fails, each time with the row of the first send active and the
  send issued inside its window: after three sends the fourth is stopped by the
  rate-limit gate and ends in \<open>RateLimitError\<close>; after three resends the next send ends
  in \<open>MaxResendExceededError\<close>; and a send issued one millisecond before the end of the
  window, whose resend reads the clock at the end, ends in \<open>OtpExpiredError\<close>. None
  returns the code.
\<close>

theorem sendOtp_within_window_counterexample:
  "run defaultConfig
     [Send ''a@x'' ''c'' 0 0 (constDraw 0) True, Send ''a@x'' ''c'' 1000 1000 (constDraw 0) True,
      Send ''a@x'' ''c'' 2000 2000 (constDraw 0) True] = rateLimitedDb \<and>
   activeCount rateLimitedDb ''a@x'' = 1 \<and>
   map createdAt (otpRecords rateLimitedDb) = [0] \<and>
   sendOtp defaultConfig rateLimitedDb ''a@x'' ''c'' 3000 3000 (constDraw 0) True =
     (Inl RateLimitError, rateLimitedDb) \<and>
   run defaultConfig
     [Send ''a@x'' ''c'' 0 0 (constDraw 0) True, Resend ''a@x'' 1000 True,
      Resend ''a@x'' 2000 True, Resend ''a@x'' 3000 True] = resendExhaustedDb \<and>
   activeCount resendExhaustedDb ''a@x'' = 1 \<and>
   map createdAt (otpRecords resendExhaustedDb) = [0] \<and>
   sendOtp defaultConfig resendExhaustedDb ''a@x'' ''c'' 4000 4000 (constDraw 0) True =
     (Inl MaxResendExceededError, logged resendExhaustedDb ''a@x'' ''c'' 4000) \<and>
   run defaultConfig [Send ''a@x'' ''c'' 0 0 (constDraw 0) True] = sampleDb \<and>
   activeCount sampleDb ''a@x'' = 1 \<and>
   map createdAt (otpRecords sampleDb) = [0] \<and>
   sendOtp defaultConfig sampleDb ''a@x'' ''c'' 299999 300000 (constDraw 0) True =
     (Inl OtpExpiredError, logged sampleDb ''a@x'' ''c'' 299999)"
proof -
  have 1: "activeCount resendExhaustedDb ''a@x'' = 1"
    by (simp add: activeCount_def resendExhaustedDb_def sampleDb_def sampleRecord_def
        isActive_def)
  have 2: "sendOtp defaultConfig resendExhaustedDb ''a@x'' ''c'' 4000 4000 (constDraw 0) True =
     (Inl MaxResendExceededError, logged resendExhaustedDb ''a@x'' ''c'' 4000)"
    by (simp add: resendExhaustedDb_def logged_def) (simp add: service_eval)
  have 3: "activeCount rateLimitedDb ''a@x'' = 1"
    by (simp add: activeCount_def rateLimitedDb_def sampleDb_def sampleRecord_def isActive_def)
  have 4: "sendOtp defaultConfig rateLimitedDb ''a@x'' ''c'' 3000 3000 (constDraw 0) True =
     (Inl RateLimitError, rateLimitedDb)"
    by (simp add: rateLimitedDb_def) (simp add: service_eval)
  have 5: "map createdAt (otpRecords resendExhaustedDb) = [0]"
    by (simp add: resendExhaustedDb_def sampleRecord_def)
  have 6: "map createdAt (otpRecords rateLimitedDb) = [0]"
    by (simp add: rateLimitedDb_def sampleRecord_def)
  have 7: "map createdAt (otpRecords sampleDb) = [0]"
    by (simp add: sampleDb_def sampleRecord_def)
  have 8: "sendOtp defaultConfig sampleDb ''a@x'' ''c'' 299999 300000 (constDraw 0) True =
     (Inl OtpExpiredError, logged sampleDb ''a@x'' ''c'' 299999)"
    by (simp add: logged_def) (simp add: service_eval)
  show ?thesis
    by (simp only: run_resendExhausted run_rateLimited run_sample activeCount_sample
        1 2 3 4 5 6 7 8 simp_thms)
qed

section \<open>Generated codes hold no white space\<close>

lemma trim_no_white: "\<forall>c \<in> set s. \<not> isWhiteSpace c \<Longrightarrow> trim s = s"
proof (rule trim_fixed)
  assume a: "\<forall>c \<in> set s. \<not> isWhiteSpace c"
  show "s = [] \<or> \<not> isWhiteSpace (hd s) \<and> \<not> isWhiteSpace (last s)"
  proof (cases "s = []")
    case True
    then show ?thesis by simp
  next
    case False
    then have "hd s \<in> set s" "last s \<in> set s" by simp_all
    with a show ?thesis by blast
  qed
qed

lemma isDigit_not_white: "isDigit c \<Longrightarrow> \<not> isWhiteSpace c"
  by (auto simp add: isDigit_def isWhiteSpace_def)

lemma minus_not_white: "\<not> isWhiteSpace CHR ''-''"
  by (simp add: isWhiteSpace_def)

lemma zero_not_white: "\<not> isWhiteSpace CHR ''0''"
  by (simp add: isWhiteSpace_def)

lemma toString_no_white: "\<forall>c \<in> set (toString i). \<not> isWhiteSpace c"
  using toString_nat_digits
  by (auto simp add: toString_def minus_not_white dest: isDigit_not_white)

lemma padStart_no_white:
  assumes "\<forall>c \<in> set p. \<not> isWhiteSpace c" "\<forall>c \<in> set s. \<not> isWhiteSpace c"
  shows "\<forall>c \<in> set (padStart n p s). \<not> isWhiteSpace c"
proof
  fix c
  assume c: "c \<in> set (padStart n p s)"
  show "\<not> isWhiteSpace c"
  proof (cases "n \<le> length s \<or> p = []")
    case True
    with c assms(2) show ?thesis by (simp add: padStart_def)
  next
    case False
    with c have "c \<in> set (take (n - length s) (concat (replicate (n - length s) p))) \<or> c \<in> set s"
      by (simp add: padStart_def)
    then show ?thesis
    proof
      assume "c \<in> set (take (n - length s) (concat (replicate (n - length s) p)))"
      then have "c \<in> set (concat (replicate (n - length s) p))" by (rule in_set_takeD)
      then have "c \<in> set p" by auto
      with assms(1) show ?thesis by blast
    next
      assume "c \<in> set s"
      with assms(2) show ?thesis by blast
    qed
  qed
qed

lemma trim_generateOTP: "trim (generateOTP x) = generateOTP x"
proof (rule trim_no_white)
  have "\<forall>c \<in> set ''000000''. \<not> isWhiteSpace c" by (simp add: zero_not_white)
  then show "\<forall>c \<in> set (generateOTP x). \<not> isWhiteSpace c"
    unfolding generateOTP_def Let_def by (rule padStart_no_white) (rule toString_no_white)
qed

lemma generateUniqueOtp_result:
  assumes "generateUniqueOtp cfg s ident now rnd = Inr otp"
  shows "otp \<notin> getUsedOtpsInWindow s ident (OTP_UNIQUENESS_WINDOW_HOURS cfg) now \<and>
     (\<exists>j. j < 100 \<and> otp = generateOTP (rnd j))"
proof -
  from assms have "generateUniqueOtp_loop
      (getUsedOtpsInWindow s ident (OTP_UNIQUENESS_WINDOW_HOURS cfg) now) rnd 0 = Inr otp"
    by (simp add: generateUniqueOtp_def Let_def)
  from generateUniqueOtp_loop_result[OF this] show ?thesis by blast
qed

section \<open>What sendOtp does to the store\<close>

lemma sendOtp_cases:
  "(length (otpRecords (snd (sendOtp cfg s e c now now_r rnd d))) = length (otpRecords s) \<and>
    otpHistory (snd (sendOtp cfg s e c now now_r rnd d)) = otpHistory s \<and>
    (otpRecords (snd (sendOtp cfg s e c now now_r rnd d)) = otpRecords s \<or>
     (\<exists>r \<in> set (otpRecords s).
        otpRecords (snd (sendOtp cfg s e c now now_r rnd d)) = map (resent cfg r now_r) (otpRecords s)))) \<or>
   (\<exists>otp. generateUniqueOtp cfg s (normalizeEmail e) now rnd = Inr otp \<and>
      sendOtp cfg s e c now now_r rnd d =
        (if d then Inr otp else Inl EmailSendError,
         issued cfg (logged s (normalizeEmail e) c now) (normalizeEmail e) c now otp))"
proof (cases "MAX_OTP_REQUESTS_PER_HOUR cfg \<le> requestsInLastHour s (normalizeEmail e) now")
  case True
  then show ?thesis by (simp add: sendOtp_limited)
next
  case False
  then have lt: "requestsInLastHour s (normalizeEmail e) now < MAX_OTP_REQUESTS_PER_HOUR cfg"
    by simp
  show ?thesis
  proof (cases "case getLatestActiveOtp s (normalizeEmail e) of None \<Rightarrow> True
      | Some r \<Rightarrow> createdAt r + OTP_RESEND_WINDOW_MINUTES cfg * 60 * 1000 \<le> now")
    case True
    show ?thesis
    proof (cases "generateUniqueOtp cfg s (normalizeEmail e) now rnd")
      case (Inl err)
      then show ?thesis by (simp add: sendOtp_new_path[OF lt True] logged_fields)
    next
      case (Inr code)
      then have "sendOtp cfg s e c now now_r rnd d =
          (if d then Inr code else Inl EmailSendError,
           issued cfg (logged s (normalizeEmail e) c now) (normalizeEmail e) c now code)"
        by (simp add: sendOtp_new_path[OF lt True])
      with Inr show ?thesis by blast
    qed
  next
    case False
    then obtain r where r: "getLatestActiveOtp s (normalizeEmail e) = Some r"
      and w: "now < createdAt r + OTP_RESEND_WINDOW_MINUTES cfg * 60 * 1000"
      by (auto split: option.splits)
    let ?s1 = "logged s (normalizeEmail e) c now"
    have h: "otpHistory (snd (resendOtp cfg ?s1 (normalizeEmail e) now_r d)) = otpHistory s"
      by (cases "getLatestActiveOtp ?s1 (normalizeEmail (normalizeEmail e))")
        (simp_all add: resendOtp_None resendOtp_Some logged_fields)
    show ?thesis
      using otpRecords_resendOtp[of cfg ?s1 "normalizeEmail e" now_r d] h
      by (auto simp add: sendOtp_resend_path[OF lt r w] logged_fields)
  qed
qed

section \<open>Invariants of the reachable stores\<close>

lemma codesTrimmed_map:
  "(\<And>x. otpCode (f x) = otpCode x) \<Longrightarrow>
   list_all (\<lambda>r. trim (otpCode r) = otpCode r) (map f xs) =
   list_all (\<lambda>r. trim (otpCode r) = otpCode r) xs"
  by (induction xs) simp_all

lemma invalidated_fields:
  "otpCode (if isActive i x then x\<lparr>invalidated := True\<rparr> else x) = otpCode x"
  "email (if isActive i x then x\<lparr>invalidated := True\<rparr> else x) = email x"
  "createdAt (if isActive i x then x\<lparr>invalidated := True\<rparr> else x) = createdAt x"
  by simp_all

lemma codesTrimmed_sendOtp:
  assumes "codesTrimmed s"
  shows "codesTrimmed (snd (sendOtp cfg s e c now now_r rnd d))"
  using sendOtp_cases[of cfg s e c now now_r rnd d]
proof (elim disjE conjE exE bexE)
  assume "otpRecords (snd (sendOtp cfg s e c now now_r rnd d)) = otpRecords s"
  with assms show ?thesis by (simp add: codesTrimmed_def)
next
  fix r
  assume "otpRecords (snd (sendOtp cfg s e c now now_r rnd d)) = map (resent cfg r now_r) (otpRecords s)"
  with assms show ?thesis
    by (simp add: codesTrimmed_def codesTrimmed_map[of "resent cfg r now_r", OF resent_fields(3)])
next
  fix otp
  assume g: "generateUniqueOtp cfg s (normalizeEmail e) now rnd = Inr otp"
    and eq: "sendOtp cfg s e c now now_r rnd d =
        (if d then Inr otp else Inl EmailSendError,
         issued cfg (logged s (normalizeEmail e) c now) (normalizeEmail e) c now otp)"
  from generateUniqueOtp_result[OF g] obtain j where "otp = generateOTP (rnd j)" by blast
  then have t: "trim otp = otp" by (simp add: trim_generateOTP)
  have m: "list_all (\<lambda>r. trim (otpCode r) = otpCode r)
      (map (\<lambda>r. if isActive (normalizeEmail e) r then r\<lparr>invalidated := True\<rparr> else r)
         (otpRecords s))"
    using assms
    by (simp only: codesTrimmed_def codesTrimmed_map[of _, OF invalidated_fields(1)])
  show ?thesis
    using m t by (simp add: eq codesTrimmed_def issued_def logged_fields)
qed

lemma codesTrimmed_step: "codesTrimmed s \<Longrightarrow> codesTrimmed (step cfg s op)"
proof (cases op)
  case (Send e c now now_r rnd d)
  assume "codesTrimmed s"
  then show ?thesis using Send by (simp add: codesTrimmed_sendOtp)
next
  case (Resend e now d)
  assume "codesTrimmed s"
  then show ?thesis
    using Resend otpRecords_resendOtp[of cfg s e now d]
    by (auto simp add: codesTrimmed_def codesTrimmed_map[of "resent cfg _ now", OF resent_fields(3)])
next
  case (Verify e code now)
  assume "codesTrimmed s"
  then show ?thesis
    using Verify otpRecords_verifyOtp[of s e code now]
    by (auto simp add: codesTrimmed_def codesTrimmed_map[of "consumed _", OF consumed_fields(3)])
qed

lemma codesTrimmed_run: "codesTrimmed (run cfg ops)"
proof (induction ops rule: rev_induct)
  case Nil
  show ?case by (simp add: run_Nil emptyDb_def codesTrimmed_def)
next
  case (snoc op ops)
  then show ?case by (simp add: run_snoc codesTrimmed_step)
qed


section \<open>Verification consumes the active row\<close>

lemma verifyOtp_consumes:
  assumes one: "activeCount s (normalizeEmail e) \<le> 1"
    and g: "getLatestActiveOtp s (normalizeEmail e) = Some r"
  shows "activeCount (s\<lparr>otpRecords := map (consumed r) (otpRecords s)\<rparr>) (normalizeEmail e) = 0"
proof -
  let ?P = "isActive (normalizeEmail e)"
  let ?xs = "otpRecords s"
  have "r \<in> set (filter ?P ?xs)"
    using latest_mem[of "filter ?P ?xs" r] g by (simp add: getLatestActiveOtp_def)
  moreover have "length (filter ?P ?xs) \<le> 1" using one by (simp add: activeCount_def)
  ultimately have f: "filter ?P ?xs = [r]"
    by (cases "filter ?P ?xs") auto
  have "\<forall>x \<in> set ?xs. \<not> ?P (consumed r x)"
  proof
    fix x
    assume x: "x \<in> set ?xs"
    show "\<not> ?P (consumed r x)"
    proof
      assume a: "?P (consumed r x)"
      then have "?P x" by (rule isActive_consumed)
      with x have "x \<in> set (filter ?P ?xs)" by simp
      then have "x = r" by (simp add: f)
      with a show False by (simp add: isActive_def consumed_def)
    qed
  qed
  then have "filter ?P (map (consumed r) ?xs) = []"
    by (simp add: filter_empty_conv)
  then show ?thesis by (simp add: activeCount_def)
qed

lemma codesTrimmed_mem: "codesTrimmed s \<Longrightarrow> r \<in> set (otpRecords s) \<Longrightarrow> trim (otpCode r) = otpCode r"
  by (simp add: codesTrimmed_def list_all_iff)

lemma activeCount_step_noSend:
  "\<not> isSend op \<Longrightarrow> activeCount (step cfg s op) i \<le> activeCount s i"
  by (cases op) (simp_all add: activeCount_resendOtp activeCount_verifyOtp)

lemma activeCount_foldl_noSend:
  "list_all (\<lambda>op. \<not> isSend op) ops \<Longrightarrow>
   activeCount (foldl (step cfg) s ops) i \<le> activeCount s i"
proof (induction ops arbitrary: s)
  case Nil
  show ?case by simp
next
  case (Cons op ops)
  then have "activeCount (foldl (step cfg) (step cfg s op) ops) i
      \<le> activeCount (step cfg s op) i" by simp
  moreover have "activeCount (step cfg s op) i \<le> activeCount s i"
    using Cons.prems by (simp add: activeCount_step_noSend)
  ultimately show ?case by simp
qed

text \<open>
  C3. In a store reached by running operations from the empty store, let \<open>r\<close> be the
  active row of an identity, not yet expired. Verifying with the code of \<open>r\<close> succeeds
  and sets \<open>used\<close> on \<open>r\<close>; the identity then has no active row, so the next
  verification for it, with any code and at any time, fails with \<open>OtpNotFoundError\<close>
  and leaves the store as it is, and so does a verification after any further resend
  and verify operations, as long as no send comes between.
\<close>

theorem verifyOtp_single_use:
  "getLatestActiveOtp (run cfg ops) (normalizeEmail e) = Some r \<Longrightarrow>
   now \<le> expiresAt r \<Longrightarrow>
   normalizeEmail e' = normalizeEmail e \<Longrightarrow>
   list_all (\<lambda>op. \<not> isSend op) later \<Longrightarrow>
     fst (verifyOtp (run cfg ops) e (otpCode r) now) = Inr True \<and>
     otpRecords (snd (verifyOtp (run cfg ops) e (otpCode r) now)) =
       map (consumed r) (otpRecords (run cfg ops)) \<and>
     r \<in> set (otpRecords (run cfg ops)) \<and> used (consumed r r) \<and>
     activeCount (snd (verifyOtp (run cfg ops) e (otpCode r) now)) (normalizeEmail e) = 0 \<and>
     verifyOtp (snd (verifyOtp (run cfg ops) e (otpCode r) now)) e' otp' now' =
       (Inl OtpNotFoundError, snd (verifyOtp (run cfg ops) e (otpCode r) now)) \<and>
     fst (verifyOtp
            (foldl (step cfg) (snd (verifyOtp (run cfg ops) e (otpCode r) now)) later)
            e' otp' now') = Inl OtpNotFoundError"
proof -
  assume g: "getLatestActiveOtp (run cfg ops) (normalizeEmail e) = Some r"
    and t: "now \<le> expiresAt r" and e': "normalizeEmail e' = normalizeEmail e"
    and later: "list_all (\<lambda>op. \<not> isSend op) later"
  let ?s = "run cfg ops"
  let ?s' = "?s\<lparr>otpRecords := map (consumed r) (otpRecords ?s)\<rparr>"
  have m: "r \<in> set (otpRecords ?s)" using getLatestActiveOtp_Some[OF g] by simp
  have c: "trim (otpCode r) = otpCode r" using codesTrimmed_run m by (rule codesTrimmed_mem)
  have v: "verifyOtp ?s e (otpCode r) now = (Inr True, ?s')"
    using t c by (simp add: verifyOtp_Some[OF g])
  have z: "activeCount ?s' (normalizeEmail e) = 0"
    using activeCount_run g by (rule verifyOtp_consumes)
  then have n: "getLatestActiveOtp ?s' (normalizeEmail e') = None"
    by (simp add: getLatestActiveOtp_None e')
  have 1: "verifyOtp ?s' e' otp' now' = (Inl OtpNotFoundError, ?s')"
    using n by (rule verifyOtp_None)
  have "activeCount (foldl (step cfg) ?s' later) (normalizeEmail e) \<le> 0"
    using activeCount_foldl_noSend[OF later, of cfg ?s' "normalizeEmail e"] z by simp
  then have "getLatestActiveOtp (foldl (step cfg) ?s' later) (normalizeEmail e') = None"
    by (simp add: getLatestActiveOtp_None e')
  then have 2: "fst (verifyOtp (foldl (step cfg) ?s' later) e' otp' now') = Inl OtpNotFoundError"
    by (simp add: verifyOtp_None)
  show ?thesis using m z 1 2 by (simp add: v consumed_def)
qed

theorem verifyOtp_single_use_witness:
  "getLatestActiveOtp (run defaultConfig [Send ''a@x'' ''c'' 0 0 (constDraw 0) True])
     (normalizeEmail ''a@x'') = Some sampleRecord \<and>
   (1000 :: int) \<le> expiresAt sampleRecord \<and>
   normalizeEmail ''a@x'' = normalizeEmail ''a@x'' \<and>
   list_all (\<lambda>op. \<not> isSend op) [Resend ''a@x'' 1500 True] \<and>
   fst (verifyOtp sampleDb ''a@x'' ''100000'' 1000) = Inr True \<and>
   map used (otpRecords (snd (verifyOtp sampleDb ''a@x'' ''100000'' 1000))) = [True] \<and>
   fst (verifyOtp (snd (verifyOtp sampleDb ''a@x'' ''100000'' 1000)) ''a@x'' ''100000'' 2000)
     = Inl OtpNotFoundError \<and>
   fst (verifyOtp
          (foldl (step defaultConfig) (snd (verifyOtp sampleDb ''a@x'' ''100000'' 1000))
             [Resend ''a@x'' 1500 True])
          ''a@x'' ''100000'' 2000) = Inl OtpNotFoundError"
proof -
  have g: "getLatestActiveOtp (run defaultConfig [Send ''a@x'' ''c'' 0 0 (constDraw 0) True])
     (normalizeEmail ''a@x'') = Some sampleRecord"
    by (simp add: run_sample normalizeEmail_sample getLatestActiveOtp_sample)
  have t: "(1000 :: int) \<le> expiresAt sampleRecord" by (simp add: sampleRecord_fields)
  have l: "list_all (\<lambda>op. \<not> isSend op) [Resend ''a@x'' 1500 True]" by simp
  show ?thesis
    using verifyOtp_single_use[OF g t refl l, of "''100000''" 2000] g t
    by (simp add: run_sample sampleRecord_fields sampleDb_fields consumed_def)
qed

section \<open>The history covers every row\<close>

lemma historyCovers_map:
  assumes "\<And>x. email (f x) = email x" "\<And>x. otpCode (f x) = otpCode x"
    "\<And>x. createdAt (f x) = createdAt x"
  shows "list_all (\<lambda>r. list_ex (\<lambda>h. email_h h = email r \<and> otpCode_h h = otpCode r \<and>
                                 createdAt_h h = createdAt r) hs) (map f xs) =
         list_all (\<lambda>r. list_ex (\<lambda>h. email_h h = email r \<and> otpCode_h h = otpCode r \<and>
                                 createdAt_h h = createdAt r) hs) xs"
  by (induction xs) (simp_all add: assms)

lemma historyCovers_append:
  "list_all (\<lambda>r. list_ex (Q r) hs) xs \<Longrightarrow> list_all (\<lambda>r. list_ex (Q r) (hs @ hs')) xs"
  by (induction xs) simp_all

lemma historyCovers_issued:
  assumes "historyCovers s"
  shows "historyCovers (issued cfg s ident c now otp)"
proof -
  let ?Q = "\<lambda>r h. email_h h = email r \<and> otpCode_h h = otpCode r \<and> createdAt_h h = createdAt r"
  let ?h = "\<lparr>email_h = ident, otpCode_h = otp, correlationId_h = c, createdAt_h = now\<rparr>"
  have "list_all (\<lambda>r. list_ex (?Q r) (otpHistory s))
      (map (\<lambda>r. if isActive ident r then r\<lparr>invalidated := True\<rparr> else r) (otpRecords s))"
    using assms
    by (simp only: historyCovers_def
        historyCovers_map[of _, OF invalidated_fields(2) invalidated_fields(1) invalidated_fields(3)])
  then have "list_all (\<lambda>r. list_ex (?Q r) (otpHistory s @ [?h]))
      (map (\<lambda>r. if isActive ident r then r\<lparr>invalidated := True\<rparr> else r) (otpRecords s))"
    by (rule historyCovers_append)
  then show ?thesis by (simp add: historyCovers_def issued_def)
qed

lemma historyCovers_logged: "historyCovers (logged s ident c now) = historyCovers s"
  by (simp add: historyCovers_def logged_fields)

lemma historyCovers_same:
  assumes "historyCovers s" "otpHistory s' = otpHistory s"
    "otpRecords s' = otpRecords s \<or>
       (\<exists>r. otpRecords s' = map (resent cfg r now) (otpRecords s)) \<or>
       (\<exists>r. otpRecords s' = map (consumed r) (otpRecords s))"
  shows "historyCovers s'"
  using assms
  by (auto simp add: historyCovers_def
      historyCovers_map[of "resent cfg _ now", OF resent_fields(2) resent_fields(3) resent_fields(4)]
      historyCovers_map[of "consumed _", OF consumed_fields(2) consumed_fields(3) consumed_fields(4)])

lemma otpHistory_resendOtp: "otpHistory (snd (resendOtp cfg s e now d)) = otpHistory s"
  by (cases "getLatestActiveOtp s (normalizeEmail e)")
    (simp_all add: resendOtp_None resendOtp_Some)

lemma otpHistory_verifyOtp: "otpHistory (snd (verifyOtp s e otp now)) = otpHistory s"
  by (cases "getLatestActiveOtp s (normalizeEmail e)")
    (simp_all add: verifyOtp_None verifyOtp_Some)

lemma historyCovers_step: "historyCovers s \<Longrightarrow> historyCovers (step cfg s op)"
proof (cases op)
  case (Send e c now now_r rnd d)
  assume a: "historyCovers s"
  from sendOtp_cases[of cfg s e c now now_r rnd d] consider
    (same) "otpHistory (snd (sendOtp cfg s e c now now_r rnd d)) = otpHistory s"
      "otpRecords (snd (sendOtp cfg s e c now now_r rnd d)) = otpRecords s \<or>
        (\<exists>r \<in> set (otpRecords s).
          otpRecords (snd (sendOtp cfg s e c now now_r rnd d)) = map (resent cfg r now_r) (otpRecords s))"
    | (new) otp where "sendOtp cfg s e c now now_r rnd d =
        (if d then Inr otp else Inl EmailSendError,
         issued cfg (logged s (normalizeEmail e) c now) (normalizeEmail e) c now otp)"
    by blast
  then show ?thesis
  proof cases
    case same
    then show ?thesis
      using Send historyCovers_same[OF a, of "snd (sendOtp cfg s e c now now_r rnd d)" cfg now_r]
      by auto
  next
    case new
    then show ?thesis
      using Send a by (simp add: historyCovers_issued historyCovers_logged)
  qed
next
  case (Resend e now d)
  assume a: "historyCovers s"
  show ?thesis
    using Resend otpRecords_resendOtp[of cfg s e now d]
      historyCovers_same[OF a otpHistory_resendOtp, of cfg e now d cfg now]
    by auto
next
  case (Verify e code now)
  assume a: "historyCovers s"
  show ?thesis
    using Verify otpRecords_verifyOtp[of s e code now]
      historyCovers_same[OF a otpHistory_verifyOtp, of e code now]
    by auto
qed

lemma historyCovers_run: "historyCovers (run cfg ops)"
proof (induction ops rule: rev_induct)
  case Nil
  show ?case by (simp add: run_Nil emptyDb_def historyCovers_def)
next
  case (snoc op ops)
  then show ?case by (simp add: run_snoc historyCovers_step)
qed


section \<open>Uniqueness of issued codes\<close>

lemma generateUniqueOtp_fresh:
  assumes g: "generateUniqueOtp cfg s ident now rnd = Inr otp"
    and h: "h \<in> set (otpHistory s)" "email_h h = ident"
      "now - OTP_UNIQUENESS_WINDOW_HOURS cfg * 60 * 60 * 1000 \<le> createdAt_h h"
  shows "otpCode_h h \<noteq> otp"
proof
  assume "otpCode_h h = otp"
  with h have "otp \<in> getUsedOtpsInWindow s ident (OTP_UNIQUENESS_WINDOW_HOURS cfg) now"
    by (auto simp add: getUsedOtpsInWindow_def Let_def)
  with generateUniqueOtp_result[OF g] show False by simp
qed

lemma historyCovers_mem:
  "historyCovers s \<Longrightarrow> r \<in> set (otpRecords s) \<Longrightarrow>
   \<exists>h \<in> set (otpHistory s).
      email_h h = email r \<and> otpCode_h h = otpCode r \<and> createdAt_h h = createdAt r"
  by (simp add: historyCovers_def list_all_iff list_ex_iff)

text \<open>
  C8. A code returned by \<open>generateUniqueOtp\<close> differs from every code in the
  identity's history whose \<open>createdAt\<close> lies in the uniqueness window. Hence, in a run
  from the empty store, when \<open>sendOtp\<close> issues a new row, its code (the value returned)
  differs from the code of every earlier row of the identity created within the window.
\<close>

theorem issued_codes_unique:
  "(generateUniqueOtp cfg s ident now rnd = Inr otp \<longrightarrow>
      (\<forall>h \<in> set (otpHistory s).
         email_h h = ident \<and>
         now - OTP_UNIQUENESS_WINDOW_HOURS cfg * 60 * 60 * 1000 \<le> createdAt_h h \<longrightarrow>
         otpCode_h h \<noteq> otp)) \<and>
   (length (otpRecords (snd (sendOtp cfg (run cfg ops) e c now now_r rnd d)))
      = Suc (length (otpRecords (run cfg ops))) \<longrightarrow>
      fst (sendOtp cfg (run cfg ops) e c now now_r rnd d) =
        (if d then Inr (otpCode (last (otpRecords (snd (sendOtp cfg (run cfg ops) e c now now_r rnd d)))))
         else Inl EmailSendError) \<and>
      (\<forall>r \<in> set (otpRecords (run cfg ops)).
         email r = normalizeEmail e \<and>
         now - OTP_UNIQUENESS_WINDOW_HOURS cfg * 60 * 60 * 1000 \<le> createdAt r \<longrightarrow>
         otpCode r \<noteq> otpCode (last (otpRecords (snd (sendOtp cfg (run cfg ops) e c now now_r rnd d))))))"
proof (intro conjI impI ballI)
  fix h
  assume "generateUniqueOtp cfg s ident now rnd = Inr otp" "h \<in> set (otpHistory s)"
    "email_h h = ident \<and>
         now - OTP_UNIQUENESS_WINDOW_HOURS cfg * 60 * 60 * 1000 \<le> createdAt_h h"
  then show "otpCode_h h \<noteq> otp" using generateUniqueOtp_fresh by blast
next
  let ?s = "run cfg ops"
  let ?res = "sendOtp cfg ?s e c now now_r rnd d"
  assume len: "length (otpRecords (snd ?res)) = Suc (length (otpRecords ?s))"
  with sendOtp_cases[of cfg ?s e c now now_r rnd d] obtain code where
    g: "generateUniqueOtp cfg ?s (normalizeEmail e) now rnd = Inr code"
    and eq: "?res = (if d then Inr code else Inl EmailSendError,
         issued cfg (logged ?s (normalizeEmail e) c now) (normalizeEmail e) c now code)"
    by auto
  have l: "otpCode (last (otpRecords (snd ?res))) = code"
    by (simp add: eq issued_def)
  show "fst ?res = (if d then Inr (otpCode (last (otpRecords (snd ?res))))
         else Inl EmailSendError)"
    by (simp only: l) (simp add: eq)
  fix r
  assume r: "r \<in> set (otpRecords ?s)"
    and w: "email r = normalizeEmail e \<and>
         now - OTP_UNIQUENESS_WINDOW_HOURS cfg * 60 * 60 * 1000 \<le> createdAt r"
  from historyCovers_mem[OF historyCovers_run r] obtain h where
    h: "h \<in> set (otpHistory ?s)" "email_h h = email r" "otpCode_h h = otpCode r"
      "createdAt_h h = createdAt r" by blast
  have he: "email_h h = normalizeEmail e" using h(2) w by simp
  have hw: "now - OTP_UNIQUENESS_WINDOW_HOURS cfg * 60 * 60 * 1000 \<le> createdAt_h h"
    using w by (simp only: h(4))
  have "otpCode_h h \<noteq> code"
    using g h(1) he hw by (rule generateUniqueOtp_fresh)
  with h(3) have "otpCode r \<noteq> code" by simp
  with l show "otpCode r \<noteq> otpCode (last (otpRecords (snd ?res)))" by simp
qed

lemma generateUniqueOtp_retry:
  "generateUniqueOtp defaultConfig sampleDb ''a@x'' 300000 retryDraw = Inr ''550000''"
proof -
  have u: "getUsedOtpsInWindow sampleDb ''a@x'' (OTP_UNIQUENESS_WINDOW_HOURS defaultConfig) 300000
      = {''100000''}"
    by (simp add: getUsedOtpsInWindow_def sampleDb_fields defaultConfig_fields)
  have d0: "generateOTP (retryDraw 0) = ''100000''"
    by (simp add: retryDraw_def generateOTP_eval)
  have d1: "generateOTP (retryDraw (Suc 0)) = ''550000''"
    by (simp add: retryDraw_def generateOTP_eval)
  have "generateUniqueOtp_loop {''100000''} retryDraw 0 = Inr ''550000''"
    by (subst generateUniqueOtp_loop.simps, simp add: d0)
      (subst generateUniqueOtp_loop.simps, simp add: d1)
  then show ?thesis by (simp add: generateUniqueOtp_def u)
qed

theorem issued_codes_unique_witness:
  "generateUniqueOtp defaultConfig sampleDb ''a@x'' 300000 retryDraw = Inr ''550000'' \<and>
   map otpCode_h (otpHistory sampleDb) = [''100000''] \<and>
   run defaultConfig [Send ''a@x'' ''c'' 0 0 (constDraw 0) True] = sampleDb \<and>
   length (otpRecords (snd (sendOtp defaultConfig sampleDb ''a@x'' ''c'' 300000 300000 retryDraw True)))
     = Suc (length (otpRecords sampleDb)) \<and>
   fst (sendOtp defaultConfig sampleDb ''a@x'' ''c'' 300000 300000 retryDraw True) = Inr ''550000'' \<and>
   otpCode sampleRecord \<noteq> ''550000''"
proof -
  have q: "requestsInLastHour sampleDb (normalizeEmail ''a@x'') 300000
      < MAX_OTP_REQUESTS_PER_HOUR defaultConfig"
    by (simp add: requestsInLastHour_def normalizeEmail_sample sampleDb_fields
        defaultConfig_fields)
  have n: "case getLatestActiveOtp sampleDb (normalizeEmail ''a@x'') of None \<Rightarrow> True
      | Some r \<Rightarrow> createdAt r + OTP_RESEND_WINDOW_MINUTES defaultConfig * 60 * 1000 \<le> 300000"
    by (simp add: normalizeEmail_sample getLatestActiveOtp_sample sampleRecord_fields
        defaultConfig_fields)
  have s: "sendOtp defaultConfig sampleDb ''a@x'' ''c'' 300000 300000 retryDraw True =
      (Inr ''550000'', issued defaultConfig (logged sampleDb ''a@x'' ''c'' 300000) ''a@x'' ''c''
         300000 ''550000'')"
    unfolding sendOtp_new_path[OF q n]
    by (simp add: normalizeEmail_sample generateUniqueOtp_retry)
  have l: "length (otpRecords (snd (sendOtp defaultConfig sampleDb ''a@x'' ''c'' 300000 300000
      retryDraw True))) = Suc (length (otpRecords sampleDb))"
    by (simp add: s issued_def logged_fields)
  show ?thesis
    using issued_codes_unique[where cfg = defaultConfig and s = sampleDb and ident = "''a@x''"
        and now = 300000 and rnd = retryDraw and otp = "''550000''"
        and ops = "[Send ''a@x'' ''c'' 0 0 (constDraw 0) True]" and e = "''a@x''"
        and c = "''c''" and d = True] l
    by (simp add: run_sample generateUniqueOtp_retry sampleDb_fields sampleRecord_fields s)
qed

end
